theory Spec2Isabelle
  imports Complex_Main
begin

section \<open>Python values and the parameter dictionaries\<close>

text \<open>
  The two scripts \<^verbatim>\<open>isotropic.py\<close> and \<^verbatim>\<open>ti_model.py\<close> keep their parameters in
  dictionaries (\<^verbatim>\<open>dp\<close>, \<^verbatim>\<open>md\<close>, \<^verbatim>\<open>sf\<close>, \<^verbatim>\<open>ndp\<close>) whose entries are Python booleans,
  integers, floats and strings. Floats are modelled as real numbers; a dictionary is a
  map from key strings to values. The dictionaries are \<^verbatim>\<open>EasyDict\<close> objects: item lookup is
  that of a Python dict, item assignment is the attribute assignment of the object
  (see \<open>setitem\<close> below).
\<close>

datatype pyval = VBool bool | VInt int | VFloat real | VStr string

datatype error = ValueError | KeyError | TypeError | ZeroDivisionError | AttributeError

type_synonym pydict = "string \<rightharpoonup> pyval"

text \<open>The integer value of a bool or an int, and the numeric value of a bool, int or float.\<close>

fun int_of :: "pyval \<Rightarrow> int option" where
  "int_of (VBool b) = Some (if b then 1 else 0)"
| "int_of (VInt n) = Some n"
| "int_of (VFloat x) = None"
| "int_of (VStr s) = None"

fun real_of :: "pyval \<Rightarrow> real option" where
  "real_of (VBool b) = Some (if b then 1 else 0)"
| "real_of (VInt n) = Some (of_int n)"
| "real_of (VFloat x) = Some x"
| "real_of (VStr s) = None"

text \<open>
  Python's \<^verbatim>\<open>a * b\<close> on these values: the product of two bools or ints is an int, a
  product with a float is a float, a string times a bool or int repeats the string, and
  every other combination with a string raises TypeError.
\<close>

definition str_repeat :: "string \<Rightarrow> int \<Rightarrow> string" where
  "str_repeat s n = concat (replicate (nat n) s)"

definition pymul :: "pyval \<Rightarrow> pyval \<Rightarrow> error + pyval" where
  "pymul a b =
     (case (a, b) of
        (VStr s, _) \<Rightarrow>
          (case int_of b of Some n \<Rightarrow> Inr (VStr (str_repeat s n)) | None \<Rightarrow> Inl TypeError)
      | (_, VStr t) \<Rightarrow>
          (case int_of a of Some n \<Rightarrow> Inr (VStr (str_repeat t n)) | None \<Rightarrow> Inl TypeError)
      | _ \<Rightarrow>
          (case (int_of a, int_of b) of
             (Some m, Some n) \<Rightarrow> Inr (VInt (m * n))
           | _ \<Rightarrow>
             (case (real_of a, real_of b) of
                (Some x, Some y) \<Rightarrow> Inr (VFloat (x * y))
              | _ \<Rightarrow> Inl TypeError)))"

text \<open>\<^verbatim>\<open>d[k]\<close> raises KeyError on a missing key.\<close>

definition getitem :: "pydict \<Rightarrow> string \<Rightarrow> error + pyval" where
  "getitem d k = (case d k of None \<Rightarrow> Inl KeyError | Some v \<Rightarrow> Inr v)"

section \<open>String operations\<close>

text \<open>
  \<^verbatim>\<open>s.split(sep)\<close> for a non-empty separator: the pieces between the non-overlapping
  occurrences of \<^verbatim>\<open>sep\<close>, found from the left. \<open>acc\<close> holds the current piece reversed.
  An empty separator raises ValueError.
\<close>

function py_split_from :: "string \<Rightarrow> string \<Rightarrow> string \<Rightarrow> string list" where
  "py_split_from sep acc [] = [rev acc]"
| "py_split_from sep acc (c # cs) =
     (if sep \<noteq> [] \<and> take (length sep) (c # cs) = sep
      then rev acc # py_split_from sep [] (drop (length sep) (c # cs))
      else py_split_from sep (c # acc) cs)"
  by pat_completeness auto
termination
  by (relation "measure (\<lambda>(sep, acc, s). length s)") auto

definition py_split :: "string \<Rightarrow> string \<Rightarrow> error + string list" where
  "py_split s sep = (if sep = [] then Inl ValueError else Inr (py_split_from sep [] s))"

text \<open>\<^verbatim>\<open>(a, b) = xs\<close>: unpacking into two targets raises ValueError unless there are exactly two items.\<close>

fun unpack2 :: "'a list \<Rightarrow> error + 'a \<times> 'a" where
  "unpack2 [a, b] = Inr (a, b)"
| "unpack2 xs = Inl ValueError"

text \<open>\<^verbatim>\<open>sub in s\<close> on strings and \<^verbatim>\<open>s.startswith(p)\<close>.\<close>

fun py_in :: "string \<Rightarrow> string \<Rightarrow> bool" where
  "py_in sub [] = (sub = [])"
| "py_in sub (c # cs) = (take (length sub) (c # cs) = sub \<or> py_in sub cs)"

definition startswith :: "string \<Rightarrow> string \<Rightarrow> bool" where
  "startswith s p = (take (length p) s = p)"

section \<open>Model name and number from the command line\<close>

text \<open>
  Both scripts start with
  \<^verbatim>\<open>
  Model = "T"
  ModNum = 0
  if len(sys.argv) == 1:
      ModNum = ModNum
  elif sys.argv[1] == '-f':
      ModNum = ModNum
  else:
      for farg in sys.argv[1:]:
          if not '=' in farg:
              try:
                  ModNum = int(farg)
              except ValueError:
                  Model  = farg
  \<close>
  \<open>args\<close> is \<^verbatim>\<open>sys.argv[1:]\<close> (\<^verbatim>\<open>sys.argv\<close> always holds the script name first). The
  builtin \<^verbatim>\<open>int\<close> on strings is the parameter \<open>pyint\<close>, \<open>None\<close> standing for ValueError.
\<close>

definition model_step :: "(string \<Rightarrow> int option) \<Rightarrow> string \<times> int \<Rightarrow> string \<Rightarrow> string \<times> int" where
  "model_step pyint mm farg =
     (if CHR ''='' \<notin> set farg
      then (case pyint farg of Some n \<Rightarrow> (fst mm, n) | None \<Rightarrow> (farg, snd mm))
      else mm)"

definition model_args :: "(string \<Rightarrow> int option) \<Rightarrow> string list \<Rightarrow> string \<times> int" where
  "model_args pyint args =
     (if length args + 1 = 1 then (''T'', 0)
      else if args ! 0 = ''-f'' then (''T'', 0)
      else foldl (model_step pyint) (''T'', 0) args)"

section \<open>Command-line overrides of the parameter dictionaries\<close>

text \<open>
  Both scripts then run
  \<^verbatim>\<open>
  for farg in sys.argv[1:]:
      try:
          (dicitem,val) = farg.split("=")
          (dic,arg) = dicitem.split(".")
          if '*=' in farg:
              (dicitem,val) = farg.split("*=")
              (dic,arg) = dicitem.split(".")
          if val == 'True':
              val = True
          elif val == 'False':
              val = False
          else:
              try:
                  val = float(val)
              except ValueError:
                  pass
          if farg.startswith('dp'):
              if '*=' in farg:
                  dp[arg] = dp[arg]*val
              else:
                  dp[arg] = val
          if farg.startswith('md'):
              if '*=' in farg:
                  md[arg] = md[arg]*val
              else:
                  md[arg] = val
      except:
          pass
  \<close>
  The builtin \<^verbatim>\<open>float\<close> on strings is the parameter \<open>pyfloat\<close>, \<open>None\<close> standing for
  ValueError.
\<close>

text \<open>The two splits that give the key \<^verbatim>\<open>arg\<close> and the value string \<^verbatim>\<open>val\<close>.\<close>

definition split_item :: "string \<Rightarrow> string \<Rightarrow> error + string \<times> string" where
  "split_item farg sep =
     (case py_split farg sep of Inl e \<Rightarrow> Inl e | Inr parts \<Rightarrow>
      (case unpack2 parts of Inl e \<Rightarrow> Inl e | Inr (dicitem, val) \<Rightarrow>
       (case py_split dicitem ''.'' of Inl e \<Rightarrow> Inl e | Inr parts' \<Rightarrow>
        (case unpack2 parts' of Inl e \<Rightarrow> Inl e | Inr (dic, arg) \<Rightarrow> Inr (arg, val)))))"

definition parse_token :: "string \<Rightarrow> error + string \<times> string" where
  "parse_token farg =
     (case split_item farg ''='' of Inl e \<Rightarrow> Inl e | Inr av \<Rightarrow>
      if py_in ''*='' farg then split_item farg ''*='' else Inr av)"

definition convert_val :: "(string \<Rightarrow> real option) \<Rightarrow> string \<Rightarrow> pyval" where
  "convert_val pyfloat val =
     (if val = ''True'' then VBool True
      else if val = ''False'' then VBool False
      else (case pyfloat val of Some x \<Rightarrow> VFloat x | None \<Rightarrow> VStr val))"

text \<open>
  \<^verbatim>\<open>d[k] = v\<close> on an \<^verbatim>\<open>EasyDict\<close>, whose \<^verbatim>\<open>__setitem__\<close> is its \<^verbatim>\<open>__setattr__\<close>: the attribute
  named \<open>k\<close> is set on the object first, and only then is the item stored. Python refuses
  to set some attribute names to a bool, a float or a string (\<^verbatim>\<open>__class__\<close> and
  \<^verbatim>\<open>__dict__\<close> raise TypeError); the assignment then raises and stores nothing. The
  library is not part of the scripts: the names that are refused, with the exception
  raised, are the parameter \<open>setattr_error\<close>.
\<close>

definition setitem :: "(string \<Rightarrow> error option) \<Rightarrow> pydict \<Rightarrow> string \<Rightarrow> pyval \<Rightarrow> error + pydict" where
  "setitem setattr_error d k v =
     (case setattr_error k of Some e \<Rightarrow> Inl e | None \<Rightarrow> Inr (d(k \<mapsto> v)))"

text \<open>An instance of the parameter for evaluation: the two names above are refused.\<close>

definition refuse_class_dict :: "string \<Rightarrow> error option" where
  "refuse_class_dict k = (if k = ''__class__'' \<or> k = ''__dict__'' then Some TypeError else None)"

text \<open>The update of one dictionary: in-place multiplication or reassignment.\<close>

definition update_dict ::
  "(string \<Rightarrow> error option) \<Rightarrow> string \<Rightarrow> string \<Rightarrow> pyval \<Rightarrow> pydict \<Rightarrow> error + pydict" where
  "update_dict setattr_error farg arg val d =
     (if py_in ''*='' farg
      then (case getitem d arg of Inl e \<Rightarrow> Inl e | Inr old \<Rightarrow>
            (case pymul old val of Inl e \<Rightarrow> Inl e | Inr new \<Rightarrow> setitem setattr_error d arg new))
      else setitem setattr_error d arg val)"

text \<open>
  The body of the \<^verbatim>\<open>try\<close>: it returns the dictionaries as they are when the body ends,
  normally or by an exception, and the exception if one was raised.
\<close>

definition override_body ::
  "(string \<Rightarrow> error option) \<Rightarrow> (string \<Rightarrow> real option) \<Rightarrow> string \<Rightarrow> pydict \<times> pydict \<Rightarrow>
   (pydict \<times> pydict) \<times> error option" where
  "override_body setattr_error pyfloat farg ds =
     (case parse_token farg of Inl e \<Rightarrow> (ds, Some e) | Inr (arg, valstr) \<Rightarrow>
      (let val = convert_val pyfloat valstr in
       (case (if startswith farg ''dp'' then update_dict setattr_error farg arg val (fst ds)
              else Inr (fst ds)) of
          Inl e \<Rightarrow> (ds, Some e)
        | Inr dp' \<Rightarrow>
          (case (if startswith farg ''md'' then update_dict setattr_error farg arg val (snd ds)
                 else Inr (snd ds)) of
             Inl e \<Rightarrow> ((dp', snd ds), Some e)
           | Inr md' \<Rightarrow> ((dp', md'), None)))))"

text \<open>\<^verbatim>\<open>except: pass\<close> drops the exception and keeps the dictionaries as the body left them.\<close>

definition override_token ::
  "(string \<Rightarrow> error option) \<Rightarrow> (string \<Rightarrow> real option) \<Rightarrow> pydict \<times> pydict \<Rightarrow> string \<Rightarrow>
   pydict \<times> pydict" where
  "override_token setattr_error pyfloat ds farg = fst (override_body setattr_error pyfloat farg ds)"

definition override_loop ::
  "(string \<Rightarrow> error option) \<Rightarrow> (string \<Rightarrow> real option) \<Rightarrow> string list \<Rightarrow> pydict \<times> pydict \<Rightarrow>
   pydict \<times> pydict" where
  "override_loop setattr_error pyfloat args ds = foldl (override_token setattr_error pyfloat) ds args"


section \<open>Default parameters and non-dimensionalisation\<close>

text \<open>
  The dimensional parameters \<^verbatim>\<open>dp\<close> and the modelling choices \<^verbatim>\<open>md\<close> as each script
  sets them before the command line is read.
\<close>

definition dp_isotropic :: pydict where
  "dp_isotropic =
     [''depth'' \<mapsto> VFloat (30 * 1000),
      ''asthenosphere'' \<mapsto> VFloat (30 * 1000 / 4),
      ''eta1'' \<mapsto> VFloat (10 ^ 24),
      ''eta2'' \<mapsto> VFloat (10 ^ 20),
      ''etaMin'' \<mapsto> VFloat (10 ^ 18),
      ''U0'' \<mapsto> VFloat (0.0025 / (3600 * 24 * 365)),
      ''rho'' \<mapsto> VFloat 2700,
      ''g'' \<mapsto> VFloat 9.81,
      ''cohesion'' \<mapsto> VFloat (100 * 10 ^ 6),
      ''fa'' \<mapsto> VFloat 30,
      ''a'' \<mapsto> VFloat 1,
      ''notchWidth'' \<mapsto> VFloat (30 * 1000 / 16),
      ''lam'' \<mapsto> VFloat (10 ^ 16)]"

definition md_isotropic :: pydict where
  "md_isotropic =
     [''refineMesh'' \<mapsto> VBool False,
      ''stickyAir'' \<mapsto> VBool False,
      ''aspectRatio'' \<mapsto> VFloat 4,
      ''res'' \<mapsto> VInt 32,
      ''ppc'' \<mapsto> VInt 25,
      ''tol'' \<mapsto> VFloat (1 / 10 ^ 10),
      ''pen'' \<mapsto> VFloat (10 ^ 7),
      ''comp'' \<mapsto> VBool False,
      ''maxIts'' \<mapsto> VInt 50,
      ''perturb'' \<mapsto> VInt 1,
      ''pertSig'' \<mapsto> VFloat 1]"

definition dp_ti_model :: pydict where
  "dp_ti_model =
     [''LS'' \<mapsto> VFloat (30 * 1000),
      ''asthenosphere'' \<mapsto> VFloat (30 * 1000 / 4),
      ''eta0'' \<mapsto> VFloat (10 ^ 21),
      ''eta1'' \<mapsto> VFloat (10 ^ 23),
      ''eta2'' \<mapsto> VFloat (10 ^ 20),
      ''etaMin'' \<mapsto> VFloat (10 ^ 18),
      ''U0'' \<mapsto> VFloat (0.0125 / (3600 * 24 * 365)),
      ''rho'' \<mapsto> VFloat 2700,
      ''g'' \<mapsto> VFloat 9.81,
      ''cohesion'' \<mapsto> VFloat (100 * 10 ^ 6),
      ''fa'' \<mapsto> VFloat 15,
      ''a'' \<mapsto> VFloat 1,
      ''notchWidth'' \<mapsto> VFloat (30 * 1000 / 16)]"

definition md_ti_model :: pydict where
  "md_ti_model =
     [''refineMesh'' \<mapsto> VBool False,
      ''stickyAir'' \<mapsto> VBool False,
      ''aspectRatio'' \<mapsto> VFloat 4,
      ''res'' \<mapsto> VInt 48,
      ''ppc'' \<mapsto> VInt 35,
      ''tol'' \<mapsto> VFloat (1 / 10 ^ 7),
      ''maxIts'' \<mapsto> VInt 50,
      ''directorPhi'' \<mapsto> VFloat 45,
      ''directorV'' \<mapsto> VFloat (1 / 10 ^ 5),
      ''directorSigma'' \<mapsto> VFloat (1 / 10 ^ 5)]"

text \<open>
  The scale factors \<^verbatim>\<open>sf\<close> and the non-dimensional parameters \<^verbatim>\<open>ndp\<close> are computed
  from \<^verbatim>\<open>dp\<close> by arithmetic on numbers. \<open>None\<close> stands for the exception Python raises:
  a string operand (TypeError) or a zero divisor (ZeroDivisionError). Results are
  numbers, except \<^verbatim>\<open>ndp.a\<close>, which is the entry \<^verbatim>\<open>dp.a\<close> itself.
\<close>

definition getnum :: "pydict \<Rightarrow> string \<Rightarrow> real option" where
  "getnum d k = (case d k of None \<Rightarrow> None | Some v \<Rightarrow> real_of v)"

definition pydiv :: "real \<Rightarrow> real \<Rightarrow> real option" where
  "pydiv x y = (if y = 0 then None else Some (x / y))"

definition radians :: "real \<Rightarrow> real" where
  "radians x = x * (pi / 180)"

text \<open>
  \<^verbatim>\<open>isotropic.py\<close>:
  \<^verbatim>\<open>
  sf.LS = 30*1e3
  sf.eta0 = 1e22
  sf.stress = (sf.eta0*dp.U0)/sf.LS
  sf.vel = dp.U0
  sf.density = sf.LS**3
  sf.g = dp.g
  sf.rho = (sf.eta0*dp.U0)/(sf.LS**2*dp.g)
  ndp.depth = dp.depth/sf.LS
  ndp.U0 = dp.U0/sf.vel
  ndp.asthenosphere = dp.asthenosphere/sf.LS
  ndp.eta1 = dp.eta1/sf.eta0
  ndp.eta2 = dp.eta2/sf.eta0
  ndp.etaMin = dp.etaMin/sf.eta0
  ndp.cohesion = (dp.cohesion/sf.stress)*np.cos(np.radians(dp.fa))
  ndp.fa = math.sin(np.radians(dp.fa)) #friction coefficient
  ndp.g = dp.g/sf.g
  ndp.rho = dp.rho/sf.rho
  ndp.notchWidth = dp.notchWidth/sf.LS
  ndp.a = dp.a
  ndp.lam=dp.lam/sf.eta0
  \<close>
\<close>

definition sf_isotropic :: "pydict \<Rightarrow> (string \<rightharpoonup> real) option" where
  "sf_isotropic dp =
     (case (getnum dp ''U0'', getnum dp ''g'') of
        (Some U0, Some g) \<Rightarrow>
          (let LS = 30 * 1000; eta0 = 10 ^ 22 in
           (case (pydiv (eta0 * U0) LS, pydiv (eta0 * U0) (LS\<^sup>2 * g)) of
              (Some stress, Some rho) \<Rightarrow>
                Some [''LS'' \<mapsto> LS, ''eta0'' \<mapsto> eta0, ''stress'' \<mapsto> stress, ''vel'' \<mapsto> U0,
                      ''density'' \<mapsto> LS ^ 3, ''g'' \<mapsto> g, ''rho'' \<mapsto> rho]
            | _ \<Rightarrow> None))
      | _ \<Rightarrow> None)"

text \<open>One entry \<^verbatim>\<open>ndp.k = dp.k/sf.s\<close>.\<close>

definition scaled :: "pydict \<Rightarrow> string \<Rightarrow> (string \<rightharpoonup> real) \<Rightarrow> string \<Rightarrow> real option" where
  "scaled dp k sf s =
     (case (getnum dp k, sf s) of (Some x, Some y) \<Rightarrow> pydiv x y | _ \<Rightarrow> None)"

definition ndp_isotropic :: "pydict \<Rightarrow> (string \<rightharpoonup> real) \<Rightarrow> pydict option" where
  "ndp_isotropic dp sf =
     (case (scaled dp ''depth'' sf ''LS'', scaled dp ''U0'' sf ''vel'',
            scaled dp ''asthenosphere'' sf ''LS'', scaled dp ''eta1'' sf ''eta0'',
            scaled dp ''eta2'' sf ''eta0'', scaled dp ''etaMin'' sf ''eta0'',
            scaled dp ''cohesion'' sf ''stress'', getnum dp ''fa'',
            scaled dp ''g'' sf ''g'', scaled dp ''rho'' sf ''rho'',
            scaled dp ''notchWidth'' sf ''LS'', dp ''a'', scaled dp ''lam'' sf ''eta0'') of
        (Some depth, Some U0, Some asthenosphere, Some eta1, Some eta2, Some etaMin,
         Some cohesion, Some fa, Some g, Some rho, Some notchWidth, Some a, Some lam) \<Rightarrow>
          Some [''depth'' \<mapsto> VFloat depth,
                ''U0'' \<mapsto> VFloat U0,
                ''asthenosphere'' \<mapsto> VFloat asthenosphere,
                ''eta1'' \<mapsto> VFloat eta1,
                ''eta2'' \<mapsto> VFloat eta2,
                ''etaMin'' \<mapsto> VFloat etaMin,
                ''cohesion'' \<mapsto> VFloat (cohesion * cos (radians fa)),
                ''fa'' \<mapsto> VFloat (sin (radians fa)),
                ''g'' \<mapsto> VFloat g,
                ''rho'' \<mapsto> VFloat rho,
                ''notchWidth'' \<mapsto> VFloat notchWidth,
                ''a'' \<mapsto> a,
                ''lam'' \<mapsto> VFloat lam]
      | _ \<Rightarrow> None)"

definition nondim_isotropic :: "pydict \<Rightarrow> ((string \<rightharpoonup> real) \<times> pydict) option" where
  "nondim_isotropic dp =
     (case sf_isotropic dp of None \<Rightarrow> None | Some sf \<Rightarrow>
      (case ndp_isotropic dp sf of None \<Rightarrow> None | Some ndp \<Rightarrow> Some (sf, ndp)))"

text \<open>
  \<^verbatim>\<open>ti_model.py\<close>, where the length and viscosity scales are entries of \<^verbatim>\<open>dp\<close>:
  \<^verbatim>\<open>
  sf = edict({'stress':(dp.eta0*dp.U0)/dp.LS,
              'vel':dp.U0,
              'density':dp.LS**3,
              'g':dp.g,
              'rho':(dp.eta0*dp.U0)/(dp.LS**2*dp.g)
             })
  ndp = edict({'U':dp.U0/sf.vel,
               'asthenosphere':dp.asthenosphere/dp.LS,
               'eta1':dp.eta1/dp.eta0,
               'eta2':dp.eta2/dp.eta0,
               'etaMin':dp.etaMin/dp.eta0,
               'cohesion':dp.cohesion/sf.stress,
               'fa':math.tan((math.pi/180.)*dp.fa),
               'g': dp.g/sf.g,
               'rho':dp.rho/sf.rho,
               'notchWidth':dp.notchWidth/dp.LS,
               'a':dp.a
              })
  \<close>
\<close>

definition sf_ti_model :: "pydict \<Rightarrow> (string \<rightharpoonup> real) option" where
  "sf_ti_model dp =
     (case (getnum dp ''eta0'', getnum dp ''U0'', getnum dp ''LS'', getnum dp ''g'') of
        (Some eta0, Some U0, Some LS, Some g) \<Rightarrow>
          (case (pydiv (eta0 * U0) LS, pydiv (eta0 * U0) (LS\<^sup>2 * g)) of
             (Some stress, Some rho) \<Rightarrow>
               Some [''stress'' \<mapsto> stress, ''vel'' \<mapsto> U0, ''density'' \<mapsto> LS ^ 3,
                     ''g'' \<mapsto> g, ''rho'' \<mapsto> rho]
           | _ \<Rightarrow> None)
      | _ \<Rightarrow> None)"

text \<open>One entry \<^verbatim>\<open>dp.k/dp.s\<close>.\<close>

definition scaled_dp :: "pydict \<Rightarrow> string \<Rightarrow> string \<Rightarrow> real option" where
  "scaled_dp dp k s =
     (case (getnum dp k, getnum dp s) of (Some x, Some y) \<Rightarrow> pydiv x y | _ \<Rightarrow> None)"

definition ndp_ti_model :: "pydict \<Rightarrow> (string \<rightharpoonup> real) \<Rightarrow> pydict option" where
  "ndp_ti_model dp sf =
     (case (scaled dp ''U0'' sf ''vel'', scaled_dp dp ''asthenosphere'' ''LS'',
            scaled_dp dp ''eta1'' ''eta0'', scaled_dp dp ''eta2'' ''eta0'',
            scaled_dp dp ''etaMin'' ''eta0'', scaled dp ''cohesion'' sf ''stress'',
            getnum dp ''fa'', scaled dp ''g'' sf ''g'', scaled dp ''rho'' sf ''rho'',
            scaled_dp dp ''notchWidth'' ''LS'', dp ''a'') of
        (Some U, Some asthenosphere, Some eta1, Some eta2, Some etaMin, Some cohesion,
         Some fa, Some g, Some rho, Some notchWidth, Some a) \<Rightarrow>
          Some [''U'' \<mapsto> VFloat U,
                ''asthenosphere'' \<mapsto> VFloat asthenosphere,
                ''eta1'' \<mapsto> VFloat eta1,
                ''eta2'' \<mapsto> VFloat eta2,
                ''etaMin'' \<mapsto> VFloat etaMin,
                ''cohesion'' \<mapsto> VFloat cohesion,
                ''fa'' \<mapsto> VFloat (tan ((pi / 180) * fa)),
                ''g'' \<mapsto> VFloat g,
                ''rho'' \<mapsto> VFloat rho,
                ''notchWidth'' \<mapsto> VFloat notchWidth,
                ''a'' \<mapsto> a]
      | _ \<Rightarrow> None)"

definition nondim_ti_model :: "pydict \<Rightarrow> ((string \<rightharpoonup> real) \<times> pydict) option" where
  "nondim_ti_model dp =
     (case sf_ti_model dp of None \<Rightarrow> None | Some sf \<Rightarrow>
      (case ndp_ti_model dp sf of None \<Rightarrow> None | Some ndp \<Rightarrow> Some (sf, ndp)))"


text \<open>
  The numeric value of an entry of \<^verbatim>\<open>ndp\<close> and an entry of \<^verbatim>\<open>sf\<close>, from the result of
  the non-dimensionalisation.
\<close>

definition ndp_entry :: "((string \<rightharpoonup> real) \<times> pydict) option \<Rightarrow> string \<Rightarrow> real option" where
  "ndp_entry r k =
     (case r of None \<Rightarrow> None
      | Some (sf, ndp) \<Rightarrow> (case ndp k of None \<Rightarrow> None | Some v \<Rightarrow> real_of v))"

definition sf_entry :: "((string \<rightharpoonup> real) \<times> pydict) option \<Rightarrow> string \<Rightarrow> real option" where
  "sf_entry r k = (case r of None \<Rightarrow> None | Some (sf, ndp) \<Rightarrow> sf k)"

section \<open>Fields, integrals and norms\<close>

text \<open>
  A mesh variable holds one value per node: a pair for the velocity, a number for the
  pressure. The library evaluates an \<^verbatim>\<open>Integral\<close> by quadrature, a finite sum of the
  integrand at sample points times their weights; at a sample point a mesh variable is
  the combination of its nodal values with the shape-function values there. A sample
  point is given by its weight and by the shape-function values of the velocity mesh
  and of the pressure sub-mesh; the quadratures of the domain and of the top wall are
  parameters of the model. A function object is a function of the sample point.
\<close>

type_synonym vdata = "(real \<times> real) list"
type_synonym pdata = "real list"

record qpoint =
  weight :: real
  vshape :: "real list"
  pshape :: "real list"

definition interp :: "real list \<Rightarrow> real list \<Rightarrow> real" where
  "interp shape data = sum_list (map2 (*) shape data)"

definition vfn :: "vdata \<Rightarrow> qpoint \<Rightarrow> real \<times> real" where
  "vfn v q = (interp (vshape q) (map fst v), interp (vshape q) (map snd v))"

definition pfn :: "pdata \<Rightarrow> qpoint \<Rightarrow> real" where
  "pfn p q = interp (pshape q) p"

definition Integral :: "(qpoint \<Rightarrow> real) \<Rightarrow> qpoint list \<Rightarrow> real" where
  "Integral f quad = (\<Sum>q\<leftarrow>quad. weight q * f q)"

text \<open>\<^verbatim>\<open>fn.math.dot\<close> and the difference of two function objects, for vectors and scalars.\<close>

definition vdot :: "(qpoint \<Rightarrow> real \<times> real) \<Rightarrow> (qpoint \<Rightarrow> real \<times> real) \<Rightarrow> qpoint \<Rightarrow> real" where
  "vdot a b q = fst (a q) * fst (b q) + snd (a q) * snd (b q)"

definition sdot :: "(qpoint \<Rightarrow> real) \<Rightarrow> (qpoint \<Rightarrow> real) \<Rightarrow> qpoint \<Rightarrow> real" where
  "sdot a b q = a q * b q"

definition vsub :: "(qpoint \<Rightarrow> real \<times> real) \<Rightarrow> (qpoint \<Rightarrow> real \<times> real) \<Rightarrow> qpoint \<Rightarrow> real \<times> real" where
  "vsub a b q = (fst (a q) - fst (b q), snd (a q) - snd (b q))"

definition ssub :: "(qpoint \<Rightarrow> real) \<Rightarrow> (qpoint \<Rightarrow> real) \<Rightarrow> qpoint \<Rightarrow> real" where
  "ssub a b q = a q - b q"

text \<open>
  \<^verbatim>\<open>
  def volumeint(Fn = 1., rFn=1.):
      return uw.utils.Integral( Fn*rFn,  mesh )
  \<close>
  always called with one argument.
\<close>

definition volumeint :: "qpoint list \<Rightarrow> (qpoint \<Rightarrow> real) \<Rightarrow> real" where
  "volumeint mesh Fn = Integral (\<lambda>q. Fn q * 1) mesh"

text \<open>
  The norms are numpy floats: a square root of a negative number and a division by zero
  give a value that is not a number or is infinite, without an exception. \<open>None\<close> stands
  for such a value; it is below no tolerance.
\<close>

type_synonym npfloat = "real option"

definition np_sqrt :: "real \<Rightarrow> npfloat" where
  "np_sqrt x = (if x < 0 then None else Some (sqrt x))"

definition np_div :: "npfloat \<Rightarrow> npfloat \<Rightarrow> npfloat" where
  "np_div a b =
     (case (a, b) of (Some x, Some y) \<Rightarrow> if y = 0 then None else Some (x / y) | _ \<Rightarrow> None)"

definition np_abs :: "npfloat \<Rightarrow> npfloat" where
  "np_abs a = map_option abs a"

definition np_lt :: "npfloat \<Rightarrow> real \<Rightarrow> bool" where
  "np_lt a t = (case a of None \<Rightarrow> False | Some x \<Rightarrow> x < t)"

section \<open>The manual Picard iteration\<close>

text \<open>
  \<^verbatim>\<open>
  md.maxIts = 10.          # isotropic.py;  md.maxIts = 4 in ti_model.py
  surfaceArea = uw.utils.Integral(fn=1.0,mesh=mesh, integrationType='surface', surfaceIndexSet=top)
  surfacePressureIntegral = uw.utils.Integral(fn=pressureField, mesh=mesh, integrationType='surface', surfaceIndexSet=top)
  (area,) = surfaceArea.evaluate()
  count = 0
  res1Vals = []
  res2Vals = []
  res3Vals = []
  for i in range(int(md.maxIts)):
      prevVelocityField.data[:] = velocityField.data.copy()
      prevPressureField.data[:] = pressureField.data[:]
      solver.solve( nonLinearIterate=False)
      (p0,) = surfacePressureIntegral.evaluate()
      pressureField.data[:] -= p0 / area
      v2 = fn.math.dot(velocityField,  velocityField)
      _Vr = volumeint(v2)
      velL2 = np.sqrt(_Vr.evaluate()[0])
      delV = velocityField - prevVelocityField
      v2 = fn.math.dot(delV,  delV)
      _Vr = volumeint(v2)
      delvelL2 = np.sqrt(_Vr.evaluate()[0])
      p2 = fn.math.dot(pressureField, pressureField)
      _Pr = volumeint(p2)
      pL2 = np.sqrt(_Pr.evaluate()[0])
      delP = pressureField - prevPressureField      # isotropic.py
      delP = pressureField - pressureField          # ti_model.py
      p2 = fn.math.dot(delP,  delP)
      _Pr = volumeint(p2)
      delpL2 = np.sqrt(_Pr.evaluate()[0])
      x2 = fn.math.dot(velocityField,  velocityField) + fn.math.dot(pressureField, pressureField)
      _Xr = volumeint(x2)
      xL2 = np.sqrt(_Xr.evaluate()[0])
      delV = velocityField - prevVelocityField
      delP = pressureField - prevPressureField
      x2 = fn.math.dot(delV,  delV) + fn.math.dot(delP, delP)
      _Xr = volumeint(x2)
      delxL2 = np.sqrt(_Xr.evaluate()[0])
      res1 = abs(delvelL2 /velL2)
      res1Vals .append(res1)
      res2 = abs(delpL2 /pL2)
      res2Vals .append(res2)
      res3 = abs(delxL2 /xL2)
      res3Vals .append(res3)
      count +=1
      print(res1, res2, res3)
      print(count)
      if res1 < md.tol:
          break
  \<close>
  The two scripts differ in the value given to \<^verbatim>\<open>md.maxIts\<close> and in the first \<^verbatim>\<open>delP\<close>.
\<close>

datatype script = Isotropic | TI_model

text \<open>
  What the scripts do not own: the linear Stokes solve, which reads the current velocity
  and pressure and overwrites them, and the two quadratures: \<open>mesh\<close> for the integrals over
  the domain and \<open>top_wall\<close> for those over the index set \<^verbatim>\<open>top\<close>. The integrals are
  returned as Python floats.
\<close>

record setting =
  solve :: "vdata \<times> pdata \<Rightarrow> vdata \<times> pdata"
  mesh :: "qpoint list"
  top_wall :: "qpoint list"

text \<open>
  The variables of the loop. \<open>solves\<close> is not a variable of the scripts: it counts the
  calls of \<^verbatim>\<open>solver.solve\<close>.
\<close>

record picard_state =
  velocityField :: vdata
  pressureField :: pdata
  prevVelocityField :: vdata
  prevPressureField :: pdata
  count :: nat
  res1Vals :: "npfloat list"
  res2Vals :: "npfloat list"
  res3Vals :: "npfloat list"
  solves :: nat

datatype outcome = Continue | Break | Raised error

text \<open>The three residuals, from the fields after the solve and the detrending.\<close>

definition res1_of :: "qpoint list \<Rightarrow> picard_state \<Rightarrow> npfloat" where
  "res1_of m s =
     (let velL2 = np_sqrt (volumeint m (vdot (vfn (velocityField s)) (vfn (velocityField s))));
          delV = vsub (vfn (velocityField s)) (vfn (prevVelocityField s));
          delvelL2 = np_sqrt (volumeint m (vdot delV delV))
      in np_abs (np_div delvelL2 velL2))"

definition res2_of :: "script \<Rightarrow> qpoint list \<Rightarrow> picard_state \<Rightarrow> npfloat" where
  "res2_of scr m s =
     (let pL2 = np_sqrt (volumeint m (sdot (pfn (pressureField s)) (pfn (pressureField s))));
          delP = (case scr of
                    Isotropic \<Rightarrow> ssub (pfn (pressureField s)) (pfn (prevPressureField s))
                  | TI_model \<Rightarrow> ssub (pfn (pressureField s)) (pfn (pressureField s)));
          delpL2 = np_sqrt (volumeint m (sdot delP delP))
      in np_abs (np_div delpL2 pL2))"

definition res3_of :: "qpoint list \<Rightarrow> picard_state \<Rightarrow> npfloat" where
  "res3_of m s =
     (let xL2 = np_sqrt (volumeint m (\<lambda>q. vdot (vfn (velocityField s)) (vfn (velocityField s)) q +
                                          sdot (pfn (pressureField s)) (pfn (pressureField s)) q));
          delV = vsub (vfn (velocityField s)) (vfn (prevVelocityField s));
          delP = ssub (pfn (pressureField s)) (pfn (prevPressureField s));
          delxL2 = np_sqrt (volumeint m (\<lambda>q. vdot delV delV q + sdot delP delP q))
      in np_abs (np_div delxL2 xL2))"

text \<open>
  The first part of an iteration: the snapshots, the solve and the removal of the
  pressure drift. \<^verbatim>\<open>p0 / area\<close> raises ZeroDivisionError when \<open>area\<close> is zero.
\<close>

definition save_prev :: "picard_state \<Rightarrow> picard_state" where
  "save_prev s = s\<lparr>prevVelocityField := velocityField s, prevPressureField := pressureField s\<rparr>"

definition call_solve :: "setting \<Rightarrow> picard_state \<Rightarrow> picard_state" where
  "call_solve env s =
     (let (v, p) = solve env (velocityField s, pressureField s)
      in s\<lparr>velocityField := v, pressureField := p, solves := Suc (solves s)\<rparr>)"

definition detrend :: "setting \<Rightarrow> real \<Rightarrow> picard_state \<Rightarrow> error + picard_state" where
  "detrend env area s =
     (let p0 = Integral (pfn (pressureField s)) (top_wall env)
      in if area = 0 then Inl ZeroDivisionError
         else Inr (s\<lparr>pressureField := map (\<lambda>d. d - p0 / area) (pressureField s)\<rparr>))"

text \<open>The second part: the residuals are appended and counted.\<close>

definition record_residuals :: "script \<Rightarrow> setting \<Rightarrow> picard_state \<Rightarrow> picard_state" where
  "record_residuals scr env s =
     s\<lparr>res1Vals := res1Vals s @ [res1_of (mesh env) s],
       res2Vals := res2Vals s @ [res2_of scr (mesh env) s],
       res3Vals := res3Vals s @ [res3_of (mesh env) s],
       count := count s + 1\<rparr>"

text \<open>
  \<^verbatim>\<open>res1 < md.tol\<close>: a missing entry raises AttributeError, a string raises TypeError,
  a bool or an int is compared by its numeric value.
\<close>

definition converged :: "npfloat \<Rightarrow> pydict \<Rightarrow> error + bool" where
  "converged res1 md =
     (case md ''tol'' of
        None \<Rightarrow> Inl AttributeError
      | Some v \<Rightarrow> (case real_of v of None \<Rightarrow> Inl TypeError | Some t \<Rightarrow> Inr (np_lt res1 t)))"

definition iteration ::
  "script \<Rightarrow> setting \<Rightarrow> pydict \<Rightarrow> real \<Rightarrow> picard_state \<Rightarrow> picard_state \<times> outcome" where
  "iteration scr env md area s =
     (let s1 = call_solve env (save_prev s) in
      case detrend env area s1 of
        Inl e \<Rightarrow> (s1, Raised e)
      | Inr s2 \<Rightarrow>
          (let s3 = record_residuals scr env s2 in
           case converged (res1_of (mesh env) s2) md of
             Inl e \<Rightarrow> (s3, Raised e)
           | Inr True \<Rightarrow> (s3, Break)
           | Inr False \<Rightarrow> (s3, Continue)))"

text \<open>
  The \<^verbatim>\<open>for\<close> loop over \<^verbatim>\<open>range(n)\<close>: \<open>n\<close> is the number of iterations left. The result
  is \<open>Continue\<close> when the range is exhausted.
\<close>

fun picard_loop ::
  "script \<Rightarrow> setting \<Rightarrow> pydict \<Rightarrow> real \<Rightarrow> nat \<Rightarrow> picard_state \<Rightarrow> picard_state \<times> outcome" where
  "picard_loop scr env md area 0 s = (s, Continue)"
| "picard_loop scr env md area (Suc n) s =
     (case iteration scr env md area s of
        (s', Continue) \<Rightarrow> picard_loop scr env md area n s'
      | (s', out) \<Rightarrow> (s', out))"

text \<open>
  \<^verbatim>\<open>int(x)\<close> on a dictionary entry: a float is truncated towards zero, a string is
  parsed by \<open>pyint\<close>.
\<close>

definition py_int :: "(string \<Rightarrow> int option) \<Rightarrow> pyval \<Rightarrow> error + int" where
  "py_int pyint v =
     (case v of
        VBool b \<Rightarrow> Inr (if b then 1 else 0)
      | VInt n \<Rightarrow> Inr n
      | VFloat x \<Rightarrow> Inr (if 0 \<le> x then \<lfloor>x\<rfloor> else \<lceil>x\<rceil>)
      | VStr s \<Rightarrow> (case pyint s of None \<Rightarrow> Inl ValueError | Some n \<Rightarrow> Inr n))"

definition set_maxIts :: "script \<Rightarrow> pydict \<Rightarrow> pydict" where
  "set_maxIts scr md =
     (case scr of Isotropic \<Rightarrow> md(''maxIts'' \<mapsto> VFloat 10) | TI_model \<Rightarrow> md(''maxIts'' \<mapsto> VInt 4))"

text \<open>
  The whole cell: \<open>md\<close> is the dictionary after the command-line overrides, \<open>v\<close> and \<open>p\<close>
  are the velocity and the pressure before the loop. The previous-iteration fields
  start at zero.
\<close>

definition init_state :: "vdata \<Rightarrow> pdata \<Rightarrow> picard_state" where
  "init_state v p =
     \<lparr>velocityField = v, pressureField = p,
      prevVelocityField = map (\<lambda>_. (0, 0)) v, prevPressureField = map (\<lambda>_. 0) p,
      count = 0, res1Vals = [], res2Vals = [], res3Vals = [], solves = 0\<rparr>"

definition picard ::
  "script \<Rightarrow> (string \<Rightarrow> int option) \<Rightarrow> setting \<Rightarrow> pydict \<Rightarrow> vdata \<Rightarrow> pdata \<Rightarrow>
   picard_state \<times> outcome" where
  "picard scr pyint env md v p =
     (let md' = set_maxIts scr md;
          area = Integral (\<lambda>q. 1) (top_wall env);
          s = init_state v p
      in case md' ''maxIts'' of
           None \<Rightarrow> (s, Raised AttributeError)
         | Some m \<Rightarrow>
             (case py_int pyint m of
                Inl e \<Rightarrow> (s, Raised e)
              | Inr n \<Rightarrow> picard_loop scr env md' area (nat n) s))"

text \<open>
  Two states of the loop that agree on everything but the recorded histories of the
  second and third residual.
\<close>

definition same_but_res23 :: "picard_state \<Rightarrow> picard_state \<Rightarrow> bool" where
  "same_but_res23 s t \<longleftrightarrow>
     velocityField s = velocityField t \<and> pressureField s = pressureField t \<and>
     prevVelocityField s = prevVelocityField t \<and> prevPressureField s = prevPressureField t \<and>
     count s = count t \<and> res1Vals s = res1Vals t \<and> solves s = solves t"

section \<open>The residual histories on file\<close>

text \<open>
  \<^verbatim>\<open>
  outputPath = "results" + "/" +  str(Model) + "/" + str(ModNum) + "/"
  ...
  if uw.rank()==0:
      someVals = [...]
      with open(os.path.join(outputPath, 'metrics.csv'), 'w') as csvfile:
          writer = csv.writer(csvfile, delimiter=",")
          writer.writerow(someVals)
      with open(os.path.join(outputPath, 'solver.csv'), 'w') as csvfile:
          writer = csv.writer(csvfile, delimiter=",")
          writer.writerow(res1Vals)
          writer.writerow(res2Vals)
          writer.writerow(res3Vals)
      with open(os.path.join(outputPath, 'params.csv'), 'w') as csvfile:   # isotropic.py only
          ...
  \<close>
  A file is the list of the rows written to it, a row the list of its values (numpy
  floats or dictionary entries); the files are a map from paths. The rows of \<^verbatim>\<open>metrics.csv\<close> and \<^verbatim>\<open>params.csv\<close> are
  computed elsewhere in the scripts and are parameters here.
\<close>

fun digits :: "nat \<Rightarrow> string" where
  "digits n =
     (if n < 10 then [char_of (48 + n)] else digits (n div 10) @ [char_of (48 + n mod 10)])"

declare digits.simps [simp del]

definition str_int :: "int \<Rightarrow> string" where
  "str_int i = (if i < 0 then CHR ''-'' # digits (nat (- i)) else digits (nat i))"

definition outputPath :: "string \<Rightarrow> int \<Rightarrow> string" where
  "outputPath Model ModNum = ''results'' @ ''/'' @ Model @ ''/'' @ str_int ModNum @ ''/''"

text \<open>\<^verbatim>\<open>os.path.join(a, b)\<close> for a relative \<open>b\<close>.\<close>

definition path_join :: "string \<Rightarrow> string \<Rightarrow> string" where
  "path_join a b = (if a = [] \<or> last a = CHR ''/'' then a @ b else a @ ''/'' @ b)"

datatype cell = Num npfloat | Val pyval

type_synonym files = "string \<rightharpoonup> cell list list"

definition write_csvs ::
  "script \<Rightarrow> nat \<Rightarrow> string \<Rightarrow> cell list \<Rightarrow> cell list list \<Rightarrow> picard_state \<Rightarrow> files \<Rightarrow> files" where
  "write_csvs scr rank path someVals params s fs =
     (if rank = 0
      then (let fs1 = fs(path_join path ''metrics.csv'' \<mapsto> [someVals]);
                fs2 = fs1(path_join path ''solver.csv'' \<mapsto>
                        [map Num (res1Vals s), map Num (res2Vals s), map Num (res3Vals s)])
            in (case scr of
                  Isotropic \<Rightarrow> fs2(path_join path ''params.csv'' \<mapsto> params)
                | TI_model \<Rightarrow> fs2))
      else fs)"


section \<open>A small setting for evaluation\<close>

text \<open>
  One velocity node and two pressure nodes; the domain is sampled at both pressure
  nodes and the top wall at the first one. The solve returns the same velocity every
  time and raises the second pressure value by one.
\<close>

definition example_mesh :: "qpoint list" where
  "example_mesh =
     [\<lparr>weight = 1, vshape = [1], pshape = [1, 0]\<rparr>, \<lparr>weight = 1, vshape = [1], pshape = [0, 1]\<rparr>]"

definition example_top :: "qpoint list" where
  "example_top = [\<lparr>weight = 1, vshape = [1], pshape = [1, 0]\<rparr>]"

definition example_setting :: setting where
  "example_setting =
     \<lparr>solve = (\<lambda>(v, p). ([(1, 0)], [0, sum_list p + 1])),
      mesh = example_mesh, top_wall = example_top\<rparr>"

text \<open>
  The same nodes with a top wall of weight 2 and a solve that returns the pressure
  3 and 5: the integral of that pressure over the top wall is 6, not zero.
\<close>

definition drift_top :: "qpoint list" where
  "drift_top = [\<lparr>weight = 2, vshape = [1], pshape = [1, 0]\<rparr>]"

definition drift_setting :: setting where
  "drift_setting =
     \<lparr>solve = (\<lambda>(v, p). ([(1, 0)], [3, 5])), mesh = example_mesh, top_wall = drift_top\<rparr>"

section \<open>Splitting and parsing a token\<close>

lemma split1_none: "c \<notin> set s \<Longrightarrow> py_split_from [c] acc s = [rev acc @ s]"
  by (induction s arbitrary: acc) auto

lemma split1_app: "c \<notin> set k \<Longrightarrow> py_split_from [c] acc (k @ c # v) = (rev acc @ k) # py_split_from [c] [] v"
  by (induction k arbitrary: acc) auto

lemma take2_eq: "take 2 (a # s) = [c1, c2] \<longleftrightarrow> a = c1 \<and> s \<noteq> [] \<and> hd s = c2"
  by (cases s) (auto simp: numeral_2_eq_2)

lemma split2_none: "c2 \<notin> set s \<Longrightarrow> py_split_from [c1, c2] acc s = [rev acc @ s]"
proof (induction s arbitrary: acc)
  case Nil
  then show ?case by simp
next
  case (Cons a s)
  have "take 2 (a # s) \<noteq> [c1, c2]"
    using Cons.prems by (cases s) (auto simp: take2_eq)
  then show ?case using Cons by (simp add: numeral_2_eq_2)
qed

lemma split2_app:
  "c2 \<notin> set k \<Longrightarrow> c1 \<noteq> c2 \<Longrightarrow>
   py_split_from [c1, c2] acc (k @ c1 # c2 # v) = (rev acc @ k) # py_split_from [c1, c2] [] v"
proof (induction k arbitrary: acc)
  case Nil
  then show ?case by (simp add: numeral_2_eq_2)
next
  case (Cons a k)
  have "take 2 (a # k @ c1 # c2 # v) \<noteq> [c1, c2]"
    using Cons.prems by (cases k) (auto simp: take2_eq)
  then show ?case using Cons by (simp add: numeral_2_eq_2)
qed

lemma py_in2_Cons: "py_in [c1, c2] (a # s) \<longleftrightarrow> take 2 (a # s) = [c1, c2] \<or> py_in [c1, c2] s"
  by simp

lemma py_in2_none: "c2 \<notin> set s \<Longrightarrow> \<not> py_in [c1, c2] s"
proof (induction s)
  case Nil
  then show ?case by simp
next
  case (Cons a s)
  have "take 2 (a # s) \<noteq> [c1, c2]"
    using Cons.prems by (cases s) (auto simp: take2_eq)
  then show ?case using Cons by (simp add: numeral_2_eq_2)
qed

lemma py_in2_app: "py_in [c1, c2] (k @ c1 # c2 # v)"
  by (induction k) (auto simp: numeral_2_eq_2)

lemma py_in2_app_iff:
  "c2 \<notin> set k \<Longrightarrow> c2 \<notin> set v \<Longrightarrow> c1 \<noteq> c2 \<Longrightarrow> py_in [c1, c2] (k @ c2 # v) \<longleftrightarrow> (k \<noteq> [] \<and> last k = c1)"
proof (induction k)
  case Nil
  then show ?case using py_in2_none[of c2 v c1] by (auto simp: numeral_2_eq_2)
next
  case (Cons a k)
  show ?case
  proof (cases k)
    case Nil
    then show ?thesis using Cons.prems py_in2_none[of c2 v c1] by (auto simp: numeral_2_eq_2)
  next
    case (Cons b k')
    have ne: "take 2 (a # k @ c2 # v) \<noteq> [c1, c2]"
      using Cons Cons.prems by (auto simp: take2_eq)
    have "py_in [c1, c2] ((a # k) @ c2 # v) = py_in [c1, c2] (k @ c2 # v)"
      using ne py_in2_Cons[of c1 c2 a "k @ c2 # v"] unfolding append_Cons by blast
    also have "\<dots> = (k \<noteq> [] \<and> last k = c1)"
      using Cons.IH Cons.prems by simp
    also have "\<dots> = (a # k \<noteq> [] \<and> last (a # k) = c1)"
      using Cons by simp
    finally show ?thesis .
  qed
qed


lemma startswith_dp_md: "startswith farg ''dp'' \<Longrightarrow> \<not> startswith farg ''md''"
  by (auto simp: startswith_def)

lemma split_eq_parts:
  assumes "CHR ''='' \<notin> set item" "CHR ''='' \<notin> set val"
  shows "py_split_from ''='' [] (item @ ''='' @ val) = [item, val]"
proof -
  have "py_split_from [CHR ''=''] [] (item @ CHR ''='' # val) =
        (rev [] @ item) # py_split_from [CHR ''=''] [] val"
    by (rule split1_app) (rule assms)
  moreover have "py_split_from [CHR ''=''] [] val = [rev [] @ val]"
    by (rule split1_none) (rule assms)
  ultimately show ?thesis by simp
qed

lemma split_dot_parts:
  assumes "CHR ''.'' \<notin> set d" "CHR ''.'' \<notin> set key"
  shows "py_split_from ''.'' [] (d @ ''.'' @ key) = [d, key]"
proof -
  have "py_split_from [CHR ''.''] [] (d @ CHR ''.'' # key) =
        (rev [] @ d) # py_split_from [CHR ''.''] [] key"
    by (rule split1_app) (rule assms)
  moreover have "py_split_from [CHR ''.''] [] key = [rev [] @ key]"
    by (rule split1_none) (rule assms)
  ultimately show ?thesis by simp
qed

lemma split_stareq_parts:
  assumes "CHR ''='' \<notin> set item" "CHR ''='' \<notin> set val"
  shows "py_split_from ''*='' [] (item @ ''*='' @ val) = [item, val]"
proof -
  have "py_split_from [CHR ''*'', CHR ''=''] [] (item @ CHR ''*'' # CHR ''='' # val) =
        (rev [] @ item) # py_split_from [CHR ''*'', CHR ''=''] [] val"
    by (rule split2_app) (use assms in simp_all)
  moreover have "py_split_from [CHR ''*'', CHR ''=''] [] val = [rev [] @ val]"
    by (rule split2_none) (rule assms)
  ultimately show ?thesis by simp
qed

lemma split_item_assign:
  assumes "CHR ''.'' \<notin> set d" "CHR ''='' \<notin> set d" "CHR ''.'' \<notin> set key" "CHR ''='' \<notin> set key"
    "CHR ''='' \<notin> set val"
  shows "split_item (d @ ''.'' @ key @ ''='' @ val) ''='' = Inr (key, val)"
proof -
  have 1: "py_split_from ''='' [] ((d @ ''.'' @ key) @ ''='' @ val) = [d @ ''.'' @ key, val]"
    by (rule split_eq_parts) (use assms in simp_all)
  have 2: "py_split_from ''.'' [] (d @ ''.'' @ key) = [d, key]"
    by (rule split_dot_parts) (use assms in simp_all)
  show ?thesis using 1 2 by (simp add: split_item_def py_split_def)
qed

lemma split_item_star_eq:
  assumes "CHR ''.'' \<notin> set d" "CHR ''='' \<notin> set d" "CHR ''.'' \<notin> set key" "CHR ''='' \<notin> set key"
    "CHR ''='' \<notin> set val"
  shows "split_item (d @ ''.'' @ key @ ''*='' @ val) ''='' = Inr (key @ ''*'', val)"
  using split_item_assign[OF assms(1,2), of "key @ ''*''" val] assms by simp

lemma split_item_star:
  assumes "CHR ''.'' \<notin> set d" "CHR ''='' \<notin> set d" "CHR ''.'' \<notin> set key" "CHR ''='' \<notin> set key"
    "CHR ''='' \<notin> set val"
  shows "split_item (d @ ''.'' @ key @ ''*='' @ val) ''*='' = Inr (key, val)"
proof -
  have 1: "py_split_from ''*='' [] ((d @ ''.'' @ key) @ ''*='' @ val) = [d @ ''.'' @ key, val]"
    by (rule split_stareq_parts) (use assms in simp_all)
  have 2: "py_split_from ''.'' [] (d @ ''.'' @ key) = [d, key]"
    by (rule split_dot_parts) (use assms in simp_all)
  show ?thesis using 1 2 by (simp add: split_item_def py_split_def)
qed

lemma py_in_star_token: "py_in ''*='' (d @ ''.'' @ key @ ''*='' @ val)"
  using py_in2_app[of "CHR ''*''" "CHR ''=''" "d @ ''.'' @ key" val] by simp

lemma py_in_assign_token:
  assumes "CHR ''='' \<notin> set d" "CHR ''='' \<notin> set key" "CHR ''='' \<notin> set val"
    "key = [] \<or> last key \<noteq> CHR ''*''"
  shows "\<not> py_in ''*='' (d @ ''.'' @ key @ ''='' @ val)"
proof -
  have "py_in [CHR ''*'', CHR ''=''] ((d @ ''.'' @ key) @ CHR ''='' # val)
        \<longleftrightarrow> (d @ ''.'' @ key \<noteq> [] \<and> last (d @ ''.'' @ key) = CHR ''*'')"
    by (rule py_in2_app_iff) (use assms in simp_all)
  then show ?thesis using assms(4) by auto
qed

lemma parse_token_assign:
  assumes "CHR ''.'' \<notin> set d" "CHR ''='' \<notin> set d" "CHR ''.'' \<notin> set key" "CHR ''='' \<notin> set key"
    "CHR ''='' \<notin> set val" "key = [] \<or> last key \<noteq> CHR ''*''"
  shows "parse_token (d @ ''.'' @ key @ ''='' @ val) = Inr (key, val)"
  using split_item_assign[OF assms(1-5)] py_in_assign_token[OF assms(2,4,5,6)]
  by (simp add: parse_token_def)

lemma parse_token_star:
  assumes "CHR ''.'' \<notin> set d" "CHR ''='' \<notin> set d" "CHR ''.'' \<notin> set key" "CHR ''='' \<notin> set key"
    "CHR ''='' \<notin> set val"
  shows "parse_token (d @ ''.'' @ key @ ''*='' @ val) = Inr (key, val)"
  using split_item_star_eq[OF assms] split_item_star[OF assms] py_in_star_token[of d key val]
  by (simp add: parse_token_def)


lemma startswith_md_dp: "startswith farg ''md'' \<Longrightarrow> \<not> startswith farg ''dp''"
  by (auto simp: startswith_def)

lemma startswith_prefix: "startswith d p \<Longrightarrow> startswith (d @ rest) p"
proof -
  assume "startswith d p"
  then have "take (length p) d = p" by (simp add: startswith_def)
  then have "length p \<le> length d" by (metis length_take min.absorb_iff2 min.commute)
  then have "take (length p) (d @ rest) = take (length p) d" by simp
  then show ?thesis using \<open>take (length p) d = p\<close> by (simp add: startswith_def)
qed




lemma override_body_assign_dp:
  assumes "CHR ''.'' \<notin> set d" "CHR ''='' \<notin> set d" "CHR ''.'' \<notin> set key" "CHR ''='' \<notin> set key"
    "CHR ''='' \<notin> set val" "key = [] \<or> last key \<noteq> CHR ''*''" "startswith d ''dp''"
  shows "override_body sa pyfloat (d @ ''.'' @ key @ ''='' @ val) (dp, md) =
         (case sa key of Some e \<Rightarrow> ((dp, md), Some e)
          | None \<Rightarrow> ((dp(key \<mapsto> convert_val pyfloat val), md), None))"
  using parse_token_assign[OF assms(1-6)] py_in_assign_token[OF assms(2,4,5,6)]
    startswith_prefix[OF assms(7), of "''.'' @ key @ ''='' @ val"]
    startswith_dp_md[of "d @ ''.'' @ key @ ''='' @ val"]
  by (simp add: override_body_def update_dict_def setitem_def split: option.splits)



lemma override_body_assign_md:
  assumes "CHR ''.'' \<notin> set d" "CHR ''='' \<notin> set d" "CHR ''.'' \<notin> set key" "CHR ''='' \<notin> set key"
    "CHR ''='' \<notin> set val" "key = [] \<or> last key \<noteq> CHR ''*''" "startswith d ''md''"
  shows "override_body sa pyfloat (d @ ''.'' @ key @ ''='' @ val) (dp, md) =
         (case sa key of Some e \<Rightarrow> ((dp, md), Some e)
          | None \<Rightarrow> ((dp, md(key \<mapsto> convert_val pyfloat val)), None))"
  using parse_token_assign[OF assms(1-6)] py_in_assign_token[OF assms(2,4,5,6)]
    startswith_prefix[OF assms(7), of "''.'' @ key @ ''='' @ val"]
    startswith_md_dp[OF startswith_prefix[OF assms(7), of "''.'' @ key @ ''='' @ val"]]
  by (simp add: override_body_def update_dict_def setitem_def split: option.splits)



lemma override_body_star_dp:
  assumes "CHR ''.'' \<notin> set d" "CHR ''='' \<notin> set d" "CHR ''.'' \<notin> set key" "CHR ''='' \<notin> set key"
    "CHR ''='' \<notin> set val" "startswith d ''dp''"
  shows "override_body sa pyfloat (d @ ''.'' @ key @ ''*='' @ val) (dp, md) =
         (case getitem dp key of Inl e \<Rightarrow> ((dp, md), Some e) | Inr old \<Rightarrow>
            (case pymul old (convert_val pyfloat val) of Inl e \<Rightarrow> ((dp, md), Some e)
             | Inr new \<Rightarrow> (case sa key of Some e \<Rightarrow> ((dp, md), Some e)
                 | None \<Rightarrow> ((dp(key \<mapsto> new), md), None))))"
  using parse_token_star[OF assms(1-5)] py_in_star_token[of d key val]
    startswith_prefix[OF assms(6), of "''.'' @ key @ ''*='' @ val"]
    startswith_dp_md[of "d @ ''.'' @ key @ ''*='' @ val"]
  by (simp add: override_body_def update_dict_def setitem_def split: sum.splits option.splits)



lemma override_body_star_md:
  assumes "CHR ''.'' \<notin> set d" "CHR ''='' \<notin> set d" "CHR ''.'' \<notin> set key" "CHR ''='' \<notin> set key"
    "CHR ''='' \<notin> set val" "startswith d ''md''"
  shows "override_body sa pyfloat (d @ ''.'' @ key @ ''*='' @ val) (dp, md) =
         (case getitem md key of Inl e \<Rightarrow> ((dp, md), Some e) | Inr old \<Rightarrow>
            (case pymul old (convert_val pyfloat val) of Inl e \<Rightarrow> ((dp, md), Some e)
             | Inr new \<Rightarrow> (case sa key of Some e \<Rightarrow> ((dp, md), Some e)
                 | None \<Rightarrow> ((dp, md(key \<mapsto> new)), None))))"
  using parse_token_star[OF assms(1-5)] py_in_star_token[of d key val]
    startswith_prefix[OF assms(6), of "''.'' @ key @ ''*='' @ val"]
    startswith_md_dp[OF startswith_prefix[OF assms(6), of "''.'' @ key @ ''*='' @ val"]]
  by (simp add: override_body_def update_dict_def setitem_def split: sum.splits option.splits)



lemma override_body_other:
  "\<not> startswith farg ''dp'' \<Longrightarrow> \<not> startswith farg ''md'' \<Longrightarrow> fst (override_body sa pyfloat farg ds) = ds"
  by (simp add: override_body_def split: sum.splits prod.splits)





lemma override_body_raise:
  "snd (override_body sa pyfloat farg ds) = Some e \<Longrightarrow> fst (override_body sa pyfloat farg ds) = ds"
proof (cases "startswith farg ''dp''")
  case True
  then have "\<not> startswith farg ''md''" by (rule startswith_dp_md)
  then show "snd (override_body sa pyfloat farg ds) = Some e \<Longrightarrow> ?thesis"
    using True by (auto simp add: override_body_def Let_def split: sum.splits prod.splits)
next
  case False
  then show "snd (override_body sa pyfloat farg ds) = Some e \<Longrightarrow> ?thesis"
    by (auto simp add: override_body_def Let_def split: sum.splits prod.splits if_splits)
qed



lemma foldl_model_step:
  "foldl (model_step pyint) (m, n) args =
     (last (m # filter (\<lambda>a. CHR ''='' \<notin> set a \<and> pyint a = None) args),
      last (n # List.map_filter pyint (filter (\<lambda>a. CHR ''='' \<notin> set a) args)))"
proof (induction args arbitrary: m n)
  case Nil
  then show ?case by simp
next
  case (Cons a args)
  let ?F = "\<lambda>xs. filter (\<lambda>a. CHR ''='' \<notin> set a \<and> pyint a = None) xs"
  let ?G = "\<lambda>xs. List.map_filter pyint (filter (\<lambda>a. CHR ''='' \<notin> set a) xs)"
  have fold: "foldl (model_step pyint) (m, n) (a # args) =
              foldl (model_step pyint) (model_step pyint (m, n) a) args"
    by simp
  show ?case
  proof (cases "CHR ''='' \<in> set a")
    case True
    then have "model_step pyint (m, n) a = (m, n)" "?F (a # args) = ?F args" "?G (a # args) = ?G args"
      by (simp_all add: model_step_def)
    then show ?thesis using Cons.IH[of m n] fold by simp
  next
    case False
    show ?thesis
    proof (cases "pyint a")
      case None
      then have "model_step pyint (m, n) a = (a, n)" "?F (a # args) = a # ?F args"
        "?G (a # args) = ?G args"
        using False by (simp_all add: model_step_def List.map_filter_simps)
      then show ?thesis using Cons.IH[of a n] fold by simp
    next
      case (Some k)
      then have "model_step pyint (m, n) a = (m, k)" "?F (a # args) = ?F args"
        "?G (a # args) = k # ?G args"
        using False by (simp_all add: model_step_def List.map_filter_simps)
      then show ?thesis using Cons.IH[of m k] fold by simp
    qed
  qed
qed

section \<open>The command line\<close>

lemma token_without_equals:
  "CHR ''='' \<notin> set farg \<Longrightarrow> override_body sa pyfloat farg ds = (ds, Some ValueError)"
  by (simp add: override_body_def parse_token_def split_item_def py_split_def split1_none)

lemma token_without_dot:
  assumes "CHR ''='' \<notin> set item" "CHR ''='' \<notin> set val" "CHR ''.'' \<notin> set item"
  shows "override_body sa pyfloat (item @ ''='' @ val) ds = (ds, Some ValueError)"
  using split_eq_parts[OF assms(1,2)] assms(3)
  by (simp add: override_body_def parse_token_def split_item_def py_split_def split1_none)

lemma star_on_missing_key:
  assumes "CHR ''.'' \<notin> set key" "CHR ''='' \<notin> set key" "CHR ''='' \<notin> set val" "dp key = None"
  shows "override_body sa pyfloat (''dp.'' @ key @ ''*='' @ val) (dp, md) = ((dp, md), Some KeyError)"
proof -
  have d: "CHR ''.'' \<notin> set ''dp''" "CHR ''='' \<notin> set ''dp''" "startswith ''dp'' ''dp''"
    by (simp_all add: startswith_def)
  show ?thesis
    using override_body_star_dp[OF d(1,2) assms(1-3) d(3), of sa pyfloat dp md] assms(4)
    by (simp add: getitem_def)
qed

lemma refused_key:
  assumes "CHR ''.'' \<notin> set key" "CHR ''='' \<notin> set key" "CHR ''='' \<notin> set val"
    "key = [] \<or> last key \<noteq> CHR ''*''" "sa key = Some e"
  shows "override_body sa pyfloat (''dp.'' @ key @ ''='' @ val) (dp, md) = ((dp, md), Some e)"
proof -
  have d: "CHR ''.'' \<notin> set ''dp''" "CHR ''='' \<notin> set ''dp''" "startswith ''dp'' ''dp''"
    by (simp_all add: startswith_def)
  show ?thesis
    using override_body_assign_dp[OF d(1,2) assms(1-4) d(3), of sa pyfloat dp md] assms(5)
    by simp
qed

text \<open>
  Claim C5, as amended. For a token \<^verbatim>\<open>dp.key=value\<close>, \<^verbatim>\<open>md.key=value\<close>, \<^verbatim>\<open>dp.key*=value\<close> or
  \<^verbatim>\<open>md.key*=value\<close> whose key holds neither \<^verbatim>\<open>.\<close> nor \<^verbatim>\<open>=\<close> and whose value holds no
  \<^verbatim>\<open>=\<close>: the value \<^verbatim>\<open>True\<close> becomes the boolean True, \<^verbatim>\<open>False\<close> the boolean False, any other
  string that \<^verbatim>\<open>float\<close> accepts that float, and anything else stays a string. Where the
  dictionary object accepts the key as the name of an attribute: with \<^verbatim>\<open>=\<close> (the key not
  ending in \<^verbatim>\<open>*\<close>, which would read as \<^verbatim>\<open>*=\<close>) the entry of the key is set to the converted
  value; with \<^verbatim>\<open>*=\<close> an existing entry is replaced by its product with the converted
  value, where Python defines that product. The other dictionary is unchanged. Where the
  object refuses the key, none of the four tokens changes either dictionary.
\<close>

theorem override_well_formed_token:
  assumes "CHR ''.'' \<notin> set key" "CHR ''='' \<notin> set key" "CHR ''='' \<notin> set val"
  shows "(val = ''True'' \<longrightarrow> convert_val pyfloat val = VBool True) \<and>
    (val = ''False'' \<longrightarrow> convert_val pyfloat val = VBool False) \<and>
    (\<forall>x. val \<noteq> ''True'' \<longrightarrow> val \<noteq> ''False'' \<longrightarrow> pyfloat val = Some x \<longrightarrow>
       convert_val pyfloat val = VFloat x) \<and>
    (val \<noteq> ''True'' \<longrightarrow> val \<noteq> ''False'' \<longrightarrow> pyfloat val = None \<longrightarrow>
       convert_val pyfloat val = VStr val) \<and>
    (setattr_error key = None \<longrightarrow> key = [] \<or> last key \<noteq> CHR ''*'' \<longrightarrow>
       override_token setattr_error pyfloat (dp, md) (''dp.'' @ key @ ''='' @ val) =
         (dp(key \<mapsto> convert_val pyfloat val), md) \<and>
       override_token setattr_error pyfloat (dp, md) (''md.'' @ key @ ''='' @ val) =
         (dp, md(key \<mapsto> convert_val pyfloat val))) \<and>
    (\<forall>old new. setattr_error key = None \<longrightarrow> dp key = Some old \<longrightarrow>
       pymul old (convert_val pyfloat val) = Inr new \<longrightarrow>
       override_token setattr_error pyfloat (dp, md) (''dp.'' @ key @ ''*='' @ val) =
         (dp(key \<mapsto> new), md)) \<and>
    (\<forall>old new. setattr_error key = None \<longrightarrow> md key = Some old \<longrightarrow>
       pymul old (convert_val pyfloat val) = Inr new \<longrightarrow>
       override_token setattr_error pyfloat (dp, md) (''md.'' @ key @ ''*='' @ val) =
         (dp, md(key \<mapsto> new))) \<and>
    (\<forall>e. setattr_error key = Some e \<longrightarrow>
       (key = [] \<or> last key \<noteq> CHR ''*'' \<longrightarrow>
          override_token setattr_error pyfloat (dp, md) (''dp.'' @ key @ ''='' @ val) = (dp, md) \<and>
          override_token setattr_error pyfloat (dp, md) (''md.'' @ key @ ''='' @ val) = (dp, md)) \<and>
       override_token setattr_error pyfloat (dp, md) (''dp.'' @ key @ ''*='' @ val) = (dp, md) \<and>
       override_token setattr_error pyfloat (dp, md) (''md.'' @ key @ ''*='' @ val) = (dp, md))"
proof -
  let ?sa = setattr_error
  have d1: "CHR ''.'' \<notin> set ''dp''" "CHR ''='' \<notin> set ''dp''" "startswith ''dp'' ''dp''"
    by (simp_all add: startswith_def)
  have d2: "CHR ''.'' \<notin> set ''md''" "CHR ''='' \<notin> set ''md''" "startswith ''md'' ''md''"
    by (simp_all add: startswith_def)
  have k1: "val = ''True'' \<longrightarrow> convert_val pyfloat val = VBool True"
    by (simp add: convert_val_def)
  have k2: "val = ''False'' \<longrightarrow> convert_val pyfloat val = VBool False"
    by (simp add: convert_val_def)
  have k3: "\<forall>x. val \<noteq> ''True'' \<longrightarrow> val \<noteq> ''False'' \<longrightarrow> pyfloat val = Some x \<longrightarrow>
       convert_val pyfloat val = VFloat x"
    by (simp add: convert_val_def)
  have k4: "val \<noteq> ''True'' \<longrightarrow> val \<noteq> ''False'' \<longrightarrow> pyfloat val = None \<longrightarrow>
       convert_val pyfloat val = VStr val"
    by (simp add: convert_val_def)
  have a1: "?sa key = None \<Longrightarrow> key = [] \<or> last key \<noteq> CHR ''*'' \<Longrightarrow>
      override_token ?sa pyfloat (dp, md) (''dp.'' @ key @ ''='' @ val) =
         (dp(key \<mapsto> convert_val pyfloat val), md)"
    using override_body_assign_dp[OF d1(1,2) assms, of ?sa pyfloat dp md] d1(3)
    by (simp add: override_token_def)
  have a2: "?sa key = None \<Longrightarrow> key = [] \<or> last key \<noteq> CHR ''*'' \<Longrightarrow>
      override_token ?sa pyfloat (dp, md) (''md.'' @ key @ ''='' @ val) =
         (dp, md(key \<mapsto> convert_val pyfloat val))"
    using override_body_assign_md[OF d2(1,2) assms, of ?sa pyfloat dp md] d2(3)
    by (simp add: override_token_def)
  have m1: "?sa key = None \<Longrightarrow> dp key = Some old \<Longrightarrow>
       pymul old (convert_val pyfloat val) = Inr new \<Longrightarrow>
       override_token ?sa pyfloat (dp, md) (''dp.'' @ key @ ''*='' @ val) = (dp(key \<mapsto> new), md)"
    for old new
    using override_body_star_dp[OF d1(1,2) assms d1(3), of ?sa pyfloat dp md]
    by (simp add: override_token_def getitem_def)
  have m2: "?sa key = None \<Longrightarrow> md key = Some old \<Longrightarrow>
       pymul old (convert_val pyfloat val) = Inr new \<Longrightarrow>
       override_token ?sa pyfloat (dp, md) (''md.'' @ key @ ''*='' @ val) = (dp, md(key \<mapsto> new))"
    for old new
    using override_body_star_md[OF d2(1,2) assms d2(3), of ?sa pyfloat dp md]
    by (simp add: override_token_def getitem_def)
  have r1: "?sa key = Some e \<Longrightarrow> key = [] \<or> last key \<noteq> CHR ''*'' \<Longrightarrow>
      override_token ?sa pyfloat (dp, md) (''dp.'' @ key @ ''='' @ val) = (dp, md)" for e
    using override_body_assign_dp[OF d1(1,2) assms, of ?sa pyfloat dp md] d1(3)
    by (simp add: override_token_def)
  have r2: "?sa key = Some e \<Longrightarrow> key = [] \<or> last key \<noteq> CHR ''*'' \<Longrightarrow>
      override_token ?sa pyfloat (dp, md) (''md.'' @ key @ ''='' @ val) = (dp, md)" for e
    using override_body_assign_md[OF d2(1,2) assms, of ?sa pyfloat dp md] d2(3)
    by (simp add: override_token_def)
  have r3: "?sa key = Some e \<Longrightarrow>
      override_token ?sa pyfloat (dp, md) (''dp.'' @ key @ ''*='' @ val) = (dp, md)" for e
    using override_body_star_dp[OF d1(1,2) assms d1(3), of ?sa pyfloat dp md]
    by (simp add: override_token_def split: sum.splits)
  have r4: "?sa key = Some e \<Longrightarrow>
      override_token ?sa pyfloat (dp, md) (''md.'' @ key @ ''*='' @ val) = (dp, md)" for e
    using override_body_star_md[OF d2(1,2) assms d2(3), of ?sa pyfloat dp md]
    by (simp add: override_token_def split: sum.splits)
  have c5: "setattr_error key = None \<longrightarrow> key = [] \<or> last key \<noteq> CHR ''*'' \<longrightarrow>
       override_token setattr_error pyfloat (dp, md) (''dp.'' @ key @ ''='' @ val) =
         (dp(key \<mapsto> convert_val pyfloat val), md) \<and>
       override_token setattr_error pyfloat (dp, md) (''md.'' @ key @ ''='' @ val) =
         (dp, md(key \<mapsto> convert_val pyfloat val))"
    using a1 a2 by (intro impI conjI)
  have c6: "\<forall>old new. setattr_error key = None \<longrightarrow> dp key = Some old \<longrightarrow>
       pymul old (convert_val pyfloat val) = Inr new \<longrightarrow>
       override_token setattr_error pyfloat (dp, md) (''dp.'' @ key @ ''*='' @ val) =
         (dp(key \<mapsto> new), md)"
    using m1 by (intro allI impI)
  have c7: "\<forall>old new. setattr_error key = None \<longrightarrow> md key = Some old \<longrightarrow>
       pymul old (convert_val pyfloat val) = Inr new \<longrightarrow>
       override_token setattr_error pyfloat (dp, md) (''md.'' @ key @ ''*='' @ val) =
         (dp, md(key \<mapsto> new))"
    using m2 by (intro allI impI)
  have c8: "\<forall>e. setattr_error key = Some e \<longrightarrow>
       (key = [] \<or> last key \<noteq> CHR ''*'' \<longrightarrow>
          override_token setattr_error pyfloat (dp, md) (''dp.'' @ key @ ''='' @ val) = (dp, md) \<and>
          override_token setattr_error pyfloat (dp, md) (''md.'' @ key @ ''='' @ val) = (dp, md)) \<and>
       override_token setattr_error pyfloat (dp, md) (''dp.'' @ key @ ''*='' @ val) = (dp, md) \<and>
       override_token setattr_error pyfloat (dp, md) (''md.'' @ key @ ''*='' @ val) = (dp, md)"
    using r1 r2 r3 r4 by (intro allI impI conjI)
  show ?thesis
    by (rule conjI[OF k1 conjI[OF k2 conjI[OF k3 conjI[OF k4 conjI[OF c5 conjI[OF c6 conjI[OF c7 c8]]]]]]])
qed

theorem override_well_formed_token_witness:
  "CHR ''.'' \<notin> set ''eta1'' \<and> CHR ''='' \<notin> set ''eta1'' \<and> CHR ''='' \<notin> set ''2'' \<and>
   refuse_class_dict ''eta1'' = None \<and>
   override_token refuse_class_dict (\<lambda>s. if s = ''2'' then Some 2 else None)
     ([''eta1'' \<mapsto> VFloat 5], Map.empty) ''dp.eta1=2'' = ([''eta1'' \<mapsto> VFloat 2], Map.empty) \<and>
   override_token refuse_class_dict (\<lambda>s. if s = ''2'' then Some 2 else None)
     ([''eta1'' \<mapsto> VFloat 5], Map.empty) ''dp.eta1*=2'' = ([''eta1'' \<mapsto> VFloat 10], Map.empty)"
  using override_well_formed_token[where key = "''eta1''" and val = "''2''"
      and pyfloat = "\<lambda>s. if s = ''2'' then Some 2 else None"
      and setattr_error = refuse_class_dict
      and dp = "[''eta1'' \<mapsto> VFloat 5]" and md = Map.empty]
  by (simp add: convert_val_def pymul_def refuse_class_dict_def)

text \<open>
  Claim C5 as stated fails for the token \<^verbatim>\<open>dp.__class__=5\<close>: key and value are well
  formed and the value becomes the float 5, but the dictionary object refuses to have
  its class set to a float, the assignment raises TypeError, which the loop drops, and
  the dictionary has no entry \<^verbatim>\<open>__class__\<close> afterwards.
\<close>

theorem override_class_key_counterexample:
  "CHR ''.'' \<notin> set ''__class__'' \<and> CHR ''='' \<notin> set ''__class__'' \<and> CHR ''='' \<notin> set ''5'' \<and>
   convert_val (\<lambda>s. if s = ''5'' then Some 5 else None) ''5'' = VFloat 5 \<and>
   override_body refuse_class_dict (\<lambda>s. if s = ''5'' then Some 5 else None) ''dp.__class__=5''
     ([''cohesion'' \<mapsto> VFloat 1], Map.empty) =
       (([''cohesion'' \<mapsto> VFloat 1], Map.empty), Some TypeError) \<and>
   override_token refuse_class_dict (\<lambda>s. if s = ''5'' then Some 5 else None)
     ([''cohesion'' \<mapsto> VFloat 1], Map.empty) ''dp.__class__=5'' =
       ([''cohesion'' \<mapsto> VFloat 1], Map.empty) \<and>
   fst (override_token refuse_class_dict (\<lambda>s. if s = ''5'' then Some 5 else None)
     ([''cohesion'' \<mapsto> VFloat 1], Map.empty) ''dp.__class__=5'') ''__class__'' \<noteq> Some (VFloat 5)"
proof -
  have b: "override_body refuse_class_dict (\<lambda>s. if s = ''5'' then Some 5 else None) ''dp.__class__=5''
     ([''cohesion'' \<mapsto> VFloat 1], Map.empty) =
       (([''cohesion'' \<mapsto> VFloat 1], Map.empty), Some TypeError)"
    using refused_key[where key = "''__class__''" and val = "''5''" and sa = refuse_class_dict
        and e = TypeError and pyfloat = "\<lambda>s. if s = ''5'' then Some 5 else None"
        and dp = "[''cohesion'' \<mapsto> VFloat 1]" and md = Map.empty]
    by (simp add: refuse_class_dict_def)
  show ?thesis unfolding override_token_def b by (simp add: convert_val_def)
qed

lemma override_loop_append:
  "override_loop sa pyfloat (xs @ ys) ds = override_loop sa pyfloat ys (override_loop sa pyfloat xs ds)"
  by (simp add: override_loop_def)

text \<open>
  Claim C6. A token whose processing raises an exception is skipped: the dictionaries
  after the token are the dictionaries before it (nothing is updated in part), and the
  loop over all tokens gives the result it gives without that token. A token without
  \<^verbatim>\<open>=\<close>, one without \<^verbatim>\<open>.\<close> before the \<^verbatim>\<open>=\<close>, a \<^verbatim>\<open>*=\<close> on a missing key and an assignment to
  a key that the dictionary object refuses are such tokens (\<open>token_without_equals\<close>,
  \<open>token_without_dot\<close>, \<open>star_on_missing_key\<close>, \<open>refused_key\<close>).
\<close>

theorem override_exception_skips_token:
  assumes "snd (override_body setattr_error pyfloat farg
                  (override_loop setattr_error pyfloat before ds)) = Some e"
  shows "override_token setattr_error pyfloat (override_loop setattr_error pyfloat before ds) farg =
           override_loop setattr_error pyfloat before ds \<and>
         override_loop setattr_error pyfloat (before @ farg # after) ds =
           override_loop setattr_error pyfloat (before @ after) ds"
proof -
  let ?loop = "override_loop setattr_error pyfloat"
  have tok: "override_token setattr_error pyfloat (?loop before ds) farg = ?loop before ds"
    using override_body_raise[OF assms] by (simp add: override_token_def)
  have "?loop (before @ farg # after) ds =
        ?loop after (override_token setattr_error pyfloat (?loop before ds) farg)"
    by (simp add: override_loop_def)
  also have "\<dots> = ?loop (before @ after) ds"
    by (simp only: tok override_loop_append)
  finally show ?thesis using tok by simp
qed

theorem override_exception_skips_token_witness:
  "snd (override_body refuse_class_dict (\<lambda>s. None) ''dp.nokey*=2''
          (override_loop refuse_class_dict (\<lambda>s. None) [''dp.a=x''] (Map.empty, Map.empty))) =
     Some KeyError \<and>
   override_loop refuse_class_dict (\<lambda>s. None) ([''dp.a=x''] @ ''dp.nokey*=2'' # [''md.b=y''])
     (Map.empty, Map.empty) = ([''a'' \<mapsto> VStr ''x''], [''b'' \<mapsto> VStr ''y'']) \<and>
   snd (override_body refuse_class_dict (\<lambda>s. None) ''md.__dict__=z''
          (override_loop refuse_class_dict (\<lambda>s. None) [''dp.a=x''] (Map.empty, Map.empty))) =
     Some TypeError \<and>
   override_loop refuse_class_dict (\<lambda>s. None) ([''dp.a=x''] @ ''md.__dict__=z'' # [''md.b=y''])
     (Map.empty, Map.empty) = ([''a'' \<mapsto> VStr ''x''], [''b'' \<mapsto> VStr ''y''])"
proof -
  have h: "snd (override_body refuse_class_dict (\<lambda>s. None) ''dp.nokey*=2''
          (override_loop refuse_class_dict (\<lambda>s. None) [''dp.a=x''] (Map.empty, Map.empty))) =
     Some KeyError"
    by (simp add: override_loop_def override_token_def override_body_def parse_token_def
        split_item_def py_split_def convert_val_def update_dict_def startswith_def getitem_def
        setitem_def refuse_class_dict_def numeral_2_eq_2)
  have g: "snd (override_body refuse_class_dict (\<lambda>s. None) ''md.__dict__=z''
          (override_loop refuse_class_dict (\<lambda>s. None) [''dp.a=x''] (Map.empty, Map.empty))) =
     Some TypeError"
    by (simp add: override_loop_def override_token_def override_body_def parse_token_def
        split_item_def py_split_def convert_val_def update_dict_def startswith_def getitem_def
        setitem_def refuse_class_dict_def numeral_2_eq_2)
  have "override_loop refuse_class_dict (\<lambda>s. None) ([''dp.a=x''] @ [''md.b=y''])
     (Map.empty, Map.empty) = ([''a'' \<mapsto> VStr ''x''], [''b'' \<mapsto> VStr ''y''])"
    by (simp add: override_loop_def override_token_def override_body_def parse_token_def
        split_item_def py_split_def convert_val_def update_dict_def startswith_def getitem_def
        setitem_def refuse_class_dict_def numeral_2_eq_2)
  then show ?thesis
    using h g override_exception_skips_token[OF h, of "[''md.b=y'']"]
      override_exception_skips_token[OF g, of "[''md.b=y'']"] by simp
qed

text \<open>
  Claim C10, as amended. The update is chosen by the first two characters of the token.
  A token that starts with neither \<^verbatim>\<open>dp\<close> nor \<^verbatim>\<open>md\<close> (such as \<^verbatim>\<open>sf.key=value\<close>) changes
  neither dictionary, and no error leaves the loop. A token \<^verbatim>\<open>d.key=value\<close> whose dictionary part \<open>d\<close> merely
  starts with \<^verbatim>\<open>dp\<close> (or \<^verbatim>\<open>md\<close>) and whose key the dictionary object accepts as the name
  of an attribute sets the entry of the key in \<^verbatim>\<open>dp\<close> (or \<^verbatim>\<open>md\<close>), whether or not the key
  was there before.
\<close>

theorem override_dispatch_startswith:
  "(\<not> startswith farg ''dp'' \<longrightarrow> \<not> startswith farg ''md'' \<longrightarrow>
      override_token setattr_error pyfloat (dp, md) farg = (dp, md)) \<and>
   (CHR ''.'' \<notin> set d \<longrightarrow> CHR ''='' \<notin> set d \<longrightarrow> CHR ''.'' \<notin> set key \<longrightarrow> CHR ''='' \<notin> set key \<longrightarrow>
    CHR ''='' \<notin> set val \<longrightarrow> (key = [] \<or> last key \<noteq> CHR ''*'') \<longrightarrow> setattr_error key = None \<longrightarrow>
      (startswith d ''dp'' \<longrightarrow>
         override_token setattr_error pyfloat (dp, md) (d @ ''.'' @ key @ ''='' @ val) =
           (dp(key \<mapsto> convert_val pyfloat val), md)) \<and>
      (startswith d ''md'' \<longrightarrow>
         override_token setattr_error pyfloat (dp, md) (d @ ''.'' @ key @ ''='' @ val) =
           (dp, md(key \<mapsto> convert_val pyfloat val))))"
  using override_body_other[of farg setattr_error pyfloat "(dp, md)"]
    override_body_assign_dp[of d key val setattr_error pyfloat dp md]
    override_body_assign_md[of d key val setattr_error pyfloat dp md]
  by (simp add: override_token_def)

theorem override_dispatch_startswith_witness:
  "override_token refuse_class_dict (\<lambda>s. None) ([''LS'' \<mapsto> VFloat 1], Map.empty) ''sf.LS=big'' =
     ([''LS'' \<mapsto> VFloat 1], Map.empty) \<and>
   override_token refuse_class_dict (\<lambda>s. None) (Map.empty, Map.empty) ''dpx.new=big'' =
     ([''new'' \<mapsto> VStr ''big''], Map.empty) \<and>
   override_token refuse_class_dict (\<lambda>s. None) (Map.empty, Map.empty) ''mdp.new=big'' =
     (Map.empty, [''new'' \<mapsto> VStr ''big''])"
  using override_dispatch_startswith[where farg = "''sf.LS=big''" and pyfloat = "\<lambda>s. None"
      and setattr_error = refuse_class_dict
      and dp = "[''LS'' \<mapsto> VFloat 1]" and md = Map.empty]
    override_dispatch_startswith[where d = "''dpx''" and key = "''new''" and val = "''big''"
      and pyfloat = "\<lambda>s. None" and setattr_error = refuse_class_dict
      and dp = Map.empty and md = Map.empty]
    override_dispatch_startswith[where d = "''mdp''" and key = "''new''" and val = "''big''"
      and pyfloat = "\<lambda>s. None" and setattr_error = refuse_class_dict
      and dp = Map.empty and md = Map.empty]
  by (simp add: startswith_def convert_val_def refuse_class_dict_def)

text \<open>
  Claim C10 as stated fails for the token \<^verbatim>\<open>dpx.__dict__=big\<close>: it starts with \<^verbatim>\<open>dp\<close> and
  names with \<^verbatim>\<open>=\<close> a key not yet present, but the dictionary object refuses to have its
  attribute dictionary set to a string, the assignment raises TypeError, which the loop
  drops, and \<^verbatim>\<open>dp\<close> gets no new entry.
\<close>

theorem override_dict_key_counterexample:
  "startswith ''dpx.__dict__=big'' ''dp'' \<and>
   override_body refuse_class_dict (\<lambda>s. None) ''dpx.__dict__=big'' (Map.empty, Map.empty) =
     ((Map.empty, Map.empty), Some TypeError) \<and>
   override_token refuse_class_dict (\<lambda>s. None) (Map.empty, Map.empty) ''dpx.__dict__=big'' =
     (Map.empty, Map.empty) \<and>
   fst (override_token refuse_class_dict (\<lambda>s. None) (Map.empty, Map.empty) ''dpx.__dict__=big'')
     ''__dict__'' = None"
proof -
  have b: "override_body refuse_class_dict (\<lambda>s. None) ''dpx.__dict__=big'' (Map.empty, Map.empty) =
     ((Map.empty, Map.empty), Some TypeError)"
    using override_body_assign_dp[where d = "''dpx''" and key = "''__dict__''" and val = "''big''"
        and sa = refuse_class_dict and pyfloat = "\<lambda>s. None" and dp = Map.empty and md = Map.empty]
    by (simp add: refuse_class_dict_def startswith_def)
  show ?thesis unfolding override_token_def b by (simp add: startswith_def)
qed

text \<open>
  Claim C7. Without arguments, or with \<^verbatim>\<open>-f\<close> as the first argument, the model is
  \<^verbatim>\<open>T\<close> and the number 0. Otherwise every argument without \<^verbatim>\<open>=\<close> that \<^verbatim>\<open>int\<close> accepts
  sets the number and every other argument without \<^verbatim>\<open>=\<close> sets the model, so the last
  of each kind remains, and the default where there is none.
\<close>

theorem model_args_positional:
  "(args = [] \<or> args ! 0 = ''-f'' \<longrightarrow> model_args pyint args = (''T'', 0)) \<and>
   (args \<noteq> [] \<longrightarrow> args ! 0 \<noteq> ''-f'' \<longrightarrow>
      model_args pyint args =
        (last (''T'' # filter (\<lambda>a. CHR ''='' \<notin> set a \<and> pyint a = None) args),
         last (0 # List.map_filter pyint (filter (\<lambda>a. CHR ''='' \<notin> set a) args)))) \<and>
   (CHR ''='' \<notin> set farg \<longrightarrow> pyint farg = Some n \<longrightarrow>
      model_step pyint (Model, ModNum) farg = (Model, n)) \<and>
   (CHR ''='' \<notin> set farg \<longrightarrow> pyint farg = None \<longrightarrow>
      model_step pyint (Model, ModNum) farg = (farg, ModNum)) \<and>
   (CHR ''='' \<in> set farg \<longrightarrow> model_step pyint (Model, ModNum) farg = (Model, ModNum))"
  using foldl_model_step[of pyint "''T''" 0 args]
  by (auto simp add: model_args_def model_step_def)

theorem model_args_positional_witness:
  "model_args (\<lambda>s. if s = ''2'' then Some 2 else None) [''2'', ''dp.fa=2'', ''Q''] = (''Q'', 2) \<and>
   model_args (\<lambda>s. if s = ''2'' then Some 2 else None) [''-f'', ''2''] = (''T'', 0)"
  using model_args_positional[of "[''2'', ''dp.fa=2'', ''Q'']" "\<lambda>s. if s = ''2'' then Some 2 else None"]
    model_args_positional[of "[''-f'', ''2'']" "\<lambda>s. if s = ''2'' then Some 2 else None"]
  by (simp add: List.map_filter_simps)

section \<open>One iteration of the Picard loop\<close>

lemma record_residuals_simps:
  "velocityField (record_residuals scr env s) = velocityField s"
  "pressureField (record_residuals scr env s) = pressureField s"
  "prevVelocityField (record_residuals scr env s) = prevVelocityField s"
  "prevPressureField (record_residuals scr env s) = prevPressureField s"
  "solves (record_residuals scr env s) = solves s"
  "count (record_residuals scr env s) = Suc (count s)"
  "res1Vals (record_residuals scr env s) = res1Vals s @ [res1_of (mesh env) s]"
  "res2Vals (record_residuals scr env s) = res2Vals s @ [res2_of scr (mesh env) s]"
  "res3Vals (record_residuals scr env s) = res3Vals s @ [res3_of (mesh env) s]"
  by (simp_all add: record_residuals_def)

lemma call_solve_simps:
  "velocityField (call_solve env s) = fst (solve env (velocityField s, pressureField s))"
  "pressureField (call_solve env s) = snd (solve env (velocityField s, pressureField s))"
  "prevVelocityField (call_solve env s) = prevVelocityField s"
  "prevPressureField (call_solve env s) = prevPressureField s"
  "solves (call_solve env s) = Suc (solves s)"
  "count (call_solve env s) = count s"
  "res1Vals (call_solve env s) = res1Vals s"
  "res2Vals (call_solve env s) = res2Vals s"
  "res3Vals (call_solve env s) = res3Vals s"
  by (simp_all add: call_solve_def split: prod.splits)

lemma save_prev_simps:
  "velocityField (save_prev s) = velocityField s"
  "pressureField (save_prev s) = pressureField s"
  "prevVelocityField (save_prev s) = velocityField s"
  "prevPressureField (save_prev s) = pressureField s"
  "solves (save_prev s) = solves s"
  "count (save_prev s) = count s"
  "res1Vals (save_prev s) = res1Vals s"
  "res2Vals (save_prev s) = res2Vals s"
  "res3Vals (save_prev s) = res3Vals s"
  by (simp_all add: save_prev_def)

lemma detrend_Inr:
  "detrend env area s = Inr s' \<Longrightarrow>
     area \<noteq> 0 \<and>
     velocityField s' = velocityField s \<and>
     pressureField s' = map (\<lambda>d. d - Integral (pfn (pressureField s)) (top_wall env) / area) (pressureField s) \<and>
     prevVelocityField s' = prevVelocityField s \<and>
     prevPressureField s' = prevPressureField s \<and>
     solves s' = solves s \<and> count s' = count s \<and>
     res1Vals s' = res1Vals s \<and> res2Vals s' = res2Vals s \<and> res3Vals s' = res3Vals s"
  by (auto simp: detrend_def Let_def split: if_splits)

lemma detrend_Inl: "detrend env area s = Inl e \<Longrightarrow> area = 0 \<and> e = ZeroDivisionError"
  by (auto simp: detrend_def Let_def split: if_splits)

lemma detrend_nonzero: "area \<noteq> 0 \<Longrightarrow> \<exists>s'. detrend env area s = Inr s'"
  by (simp add: detrend_def Let_def)

lemma iteration_cases:
  assumes "area \<noteq> 0"
  obtains s2 where "detrend env area (call_solve env (save_prev s)) = Inr s2"
    "fst (iteration scr env md area s) = record_residuals scr env s2"
    "snd (iteration scr env md area s) =
       (case converged (res1_of (mesh env) s2) md of Inl e \<Rightarrow> Raised e | Inr True \<Rightarrow> Break | Inr False \<Rightarrow> Continue)"
proof -
  obtain s2 where d: "detrend env area (call_solve env (save_prev s)) = Inr s2"
    using detrend_nonzero[OF assms] by blast
  have "fst (iteration scr env md area s) = record_residuals scr env s2"
    by (simp add: iteration_def d Let_def split: sum.splits bool.splits)
  moreover have "snd (iteration scr env md area s) =
       (case converged (res1_of (mesh env) s2) md of Inl e \<Rightarrow> Raised e | Inr True \<Rightarrow> Break | Inr False \<Rightarrow> Continue)"
    by (simp add: iteration_def d Let_def split: sum.splits bool.splits)
  ultimately show ?thesis using d that by blast
qed

lemma iteration_zero_area:
  "iteration scr env md 0 s = (call_solve env (save_prev s), Raised ZeroDivisionError)"
  by (simp add: iteration_def detrend_def Let_def)

lemma iteration_solves: "solves (fst (iteration scr env md area s)) = Suc (solves s)"
  by (auto simp: iteration_def Let_def call_solve_simps save_prev_simps record_residuals_simps
      split: sum.splits bool.splits dest!: detrend_Inr)

lemma converged_numeric:
  "md ''tol'' = Some v \<Longrightarrow> real_of v = Some t \<Longrightarrow> converged r md = Inr (np_lt r t)"
  by (simp add: converged_def)

lemma iteration_numeric:
  assumes "area \<noteq> 0" "md ''tol'' = Some v" "real_of v = Some t"
  obtains s2 where "detrend env area (call_solve env (save_prev s)) = Inr s2"
    "iteration scr env md area s =
       (record_residuals scr env s2, if np_lt (res1_of (mesh env) s2) t then Break else Continue)"
proof -
  obtain s2 where d: "detrend env area (call_solve env (save_prev s)) = Inr s2"
    and f: "fst (iteration scr env md area s) = record_residuals scr env s2"
    and o: "snd (iteration scr env md area s) =
       (case converged (res1_of (mesh env) s2) md of Inl e \<Rightarrow> Raised e | Inr True \<Rightarrow> Break | Inr False \<Rightarrow> Continue)"
    using iteration_cases[OF assms(1)] by blast
  have "snd (iteration scr env md area s) = (if np_lt (res1_of (mesh env) s2) t then Break else Continue)"
    using o assms(2,3) by (simp add: converged_def)
  then have "iteration scr env md area s =
       (record_residuals scr env s2, if np_lt (res1_of (mesh env) s2) t then Break else Continue)"
    using f by (metis prod.collapse)
  then show ?thesis using d that by blast
qed

lemma detrend_keeps:
  "detrend env area (call_solve env (save_prev s)) = Inr s2 \<Longrightarrow>
     count s2 = count s \<and> solves s2 = Suc (solves s) \<and>
     res1Vals s2 = res1Vals s \<and> res2Vals s2 = res2Vals s \<and> res3Vals s2 = res3Vals s"
  by (auto dest!: detrend_Inr simp: call_solve_simps save_prev_simps)

lemma picard_loop_history:
  assumes "area \<noteq> 0" "md ''tol'' = Some v" "real_of v = Some t"
  shows "picard_loop scr env md area n s = (s', out) \<Longrightarrow>
    \<exists>ys. res1Vals s' = res1Vals s @ ys \<and> count s' = count s + length ys \<and>
         solves s' = solves s + length ys \<and>
         length (res2Vals s') = length (res2Vals s) + length ys \<and>
         length (res3Vals s') = length (res3Vals s) + length ys \<and>
         length ys \<le> n \<and>
         (out = Continue \<and> length ys = n \<and> (\<forall>y\<in>set ys. \<not> np_lt y t) \<or>
          out = Break \<and> ys \<noteq> [] \<and> np_lt (last ys) t \<and> (\<forall>y\<in>set (butlast ys). \<not> np_lt y t))"
proof (induction n arbitrary: s)
  case 0
  then show ?case by simp
next
  case (Suc n)
  obtain s2 where d: "detrend env area (call_solve env (save_prev s)) = Inr s2"
    and it: "iteration scr env md area s =
       (record_residuals scr env s2, if np_lt (res1_of (mesh env) s2) t then Break else Continue)"
    using iteration_numeric[where md = md and v = v and t = t and area = area and env = env
        and s = s and scr = scr] assms by blast
  let ?r = "res1_of (mesh env) s2"
  let ?s1 = "record_residuals scr env s2"
  note k = detrend_keeps[OF d]
  show ?case
  proof (cases "np_lt ?r t")
    case True
    then have "s' = ?s1" "out = Break" using Suc.prems it by simp_all
    then have "res1Vals s' = res1Vals s @ [?r] \<and> count s' = count s + length [?r] \<and>
         solves s' = solves s + length [?r] \<and>
         length (res2Vals s') = length (res2Vals s) + length [?r] \<and>
         length (res3Vals s') = length (res3Vals s) + length [?r] \<and>
         length [?r] \<le> Suc n \<and>
         (out = Break \<and> [?r] \<noteq> [] \<and> np_lt (last [?r]) t \<and> (\<forall>y\<in>set (butlast [?r]). \<not> np_lt y t))"
      using True k by (simp add: record_residuals_simps)
    then show ?thesis by blast
  next
    case False
    then have "picard_loop scr env md area n ?s1 = (s', out)" using Suc.prems it by simp
    from Suc.IH[OF this] obtain ys where ys: "res1Vals s' = res1Vals ?s1 @ ys"
      "count s' = count ?s1 + length ys" "solves s' = solves ?s1 + length ys"
      "length (res2Vals s') = length (res2Vals ?s1) + length ys"
      "length (res3Vals s') = length (res3Vals ?s1) + length ys" "length ys \<le> n"
      "out = Continue \<and> length ys = n \<and> (\<forall>y\<in>set ys. \<not> np_lt y t) \<or>
          out = Break \<and> ys \<noteq> [] \<and> np_lt (last ys) t \<and> (\<forall>y\<in>set (butlast ys). \<not> np_lt y t)"
      by blast
    have "res1Vals s' = res1Vals s @ (?r # ys) \<and> count s' = count s + length (?r # ys) \<and>
         solves s' = solves s + length (?r # ys) \<and>
         length (res2Vals s') = length (res2Vals s) + length (?r # ys) \<and>
         length (res3Vals s') = length (res3Vals s) + length (?r # ys) \<and>
         length (?r # ys) \<le> Suc n"
      using ys(1-6) k by (simp add: record_residuals_simps)
    moreover have "out = Continue \<and> length (?r # ys) = Suc n \<and> (\<forall>y\<in>set (?r # ys). \<not> np_lt y t) \<or>
          out = Break \<and> ?r # ys \<noteq> [] \<and> np_lt (last (?r # ys)) t \<and>
            (\<forall>y\<in>set (butlast (?r # ys)). \<not> np_lt y t)"
      using ys(7) False by auto
    ultimately show ?thesis by blast
  qed
qed

section \<open>Independence of the second and third residual\<close>

lemma res1_of_cong:
  "velocityField s = velocityField t \<Longrightarrow> prevVelocityField s = prevVelocityField t \<Longrightarrow>
   res1_of m s = res1_of m t"
  by (simp add: res1_of_def)

lemma same_but_res23_presolve:
  assumes "same_but_res23 s t"
  shows "same_but_res23 (call_solve env (save_prev s)) (call_solve env (save_prev t))"
  unfolding same_but_res23_def call_solve_simps save_prev_simps
  using assms unfolding same_but_res23_def by simp

lemma same_but_res23_detrend:
  assumes "same_but_res23 s t" "detrend env area s = Inr s2" "detrend env area t = Inr t2"
  shows "same_but_res23 s2 t2"
proof -
  have a: "area \<noteq> 0" using assms(2) by (auto dest: detrend_Inr)
  have s2: "s2 = s\<lparr>pressureField := map (\<lambda>d. d - Integral (pfn (pressureField s)) (top_wall env) / area) (pressureField s)\<rparr>"
    using assms(2) a by (simp add: detrend_def Let_def)
  have t2: "t2 = t\<lparr>pressureField := map (\<lambda>d. d - Integral (pfn (pressureField t)) (top_wall env) / area) (pressureField t)\<rparr>"
    using assms(3) a by (simp add: detrend_def Let_def)
  show ?thesis unfolding s2 t2 using assms(1) unfolding same_but_res23_def by simp
qed

lemma same_but_res23_record:
  assumes "same_but_res23 s t"
  shows "same_but_res23 (record_residuals scr env s) (record_residuals scr' env t)"
proof -
  have "res1_of (mesh env) s = res1_of (mesh env) t"
    using assms by (intro res1_of_cong) (simp_all add: same_but_res23_def)
  then show ?thesis
    unfolding same_but_res23_def record_residuals_simps
    using assms unfolding same_but_res23_def by simp
qed

lemma iteration_same:
  assumes "same_but_res23 s t"
  shows "same_but_res23 (fst (iteration scr env md area s)) (fst (iteration scr' env md area t)) \<and>
         snd (iteration scr env md area s) = snd (iteration scr' env md area t)"
proof (cases "area = 0")
  case True
  have "iteration scr env md area s = (call_solve env (save_prev s), Raised ZeroDivisionError)"
    "iteration scr' env md area t = (call_solve env (save_prev t), Raised ZeroDivisionError)"
    unfolding True by (rule iteration_zero_area)+
  then show ?thesis using same_but_res23_presolve[OF assms] by simp
next
  case False
  obtain s2 where s2: "detrend env area (call_solve env (save_prev s)) = Inr s2"
    "fst (iteration scr env md area s) = record_residuals scr env s2"
    "snd (iteration scr env md area s) =
       (case converged (res1_of (mesh env) s2) md of Inl e \<Rightarrow> Raised e | Inr True \<Rightarrow> Break | Inr False \<Rightarrow> Continue)"
    using iteration_cases[OF False] by blast
  obtain t2 where t2: "detrend env area (call_solve env (save_prev t)) = Inr t2"
    "fst (iteration scr' env md area t) = record_residuals scr' env t2"
    "snd (iteration scr' env md area t) =
       (case converged (res1_of (mesh env) t2) md of Inl e \<Rightarrow> Raised e | Inr True \<Rightarrow> Break | Inr False \<Rightarrow> Continue)"
    using iteration_cases[OF False] by blast
  have same2: "same_but_res23 s2 t2"
    using same_but_res23_detrend[OF same_but_res23_presolve[OF assms] s2(1) t2(1)] .
  then have r: "res1_of (mesh env) s2 = res1_of (mesh env) t2"
    by (intro res1_of_cong) (simp_all add: same_but_res23_def)
  show ?thesis
    unfolding s2(2,3) t2(2,3) r using same_but_res23_record[OF same2] by simp
qed

lemma picard_loop_same:
  "same_but_res23 s t \<Longrightarrow> picard_loop scr env md area n s = (s', out) \<Longrightarrow>
   \<exists>t'. picard_loop scr' env md area n t = (t', out) \<and> same_but_res23 s' t'"
proof (induction n arbitrary: s t)
  case 0
  then show ?case by simp
next
  case (Suc n)
  obtain s1 o1 where s1: "iteration scr env md area s = (s1, o1)" by (cases "iteration scr env md area s")
  obtain t1 p1 where t1: "iteration scr' env md area t = (t1, p1)" by (cases "iteration scr' env md area t")
  have st: "same_but_res23 s1 t1" "o1 = p1"
    using iteration_same[OF Suc.prems(1), of scr env md area scr'] s1 t1 by simp_all
  show ?case
  proof (cases "o1 = Continue")
    case True
    then have "picard_loop scr env md area n s1 = (s', out)" using Suc.prems(2) s1 by simp
    from Suc.IH[OF st(1) this] obtain t' where
      "picard_loop scr' env md area n t1 = (t', out)" "same_but_res23 s' t'" by blast
    then show ?thesis using t1 st(2) True by simp
  next
    case False
    then have a: "s' = s1" "out = o1" using Suc.prems(2) s1 by (cases o1; simp)+
    have "picard_loop scr' env md area (Suc n) t = (t1, o1)"
      using t1 st(2) False by (cases o1) auto
    then show ?thesis using a st(1) by blast
  qed
qed

section \<open>The Picard cell\<close>

lemma set_maxIts_tol: "set_maxIts scr md ''tol'' = md ''tol''"
  by (cases scr) (simp_all add: set_maxIts_def)

lemma picard_unfold:
  "picard scr pyint env md v p =
     picard_loop scr env (set_maxIts scr md) (Integral (\<lambda>q. 1) (top_wall env))
       (case scr of Isotropic \<Rightarrow> 10 | TI_model \<Rightarrow> 4) (init_state v p)"
  by (cases scr) (simp_all add: picard_def set_maxIts_def py_int_def)

lemma maxIts_int:
  "\<exists>m. set_maxIts scr md ''maxIts'' = Some m \<and>
       py_int pyint m = Inr (int (case scr of Isotropic \<Rightarrow> 10 | TI_model \<Rightarrow> 4))"
  by (cases scr) (simp_all add: set_maxIts_def py_int_def)

section \<open>The example setting evaluated\<close>

lemmas eval_defs = iteration_def save_prev_def call_solve_def detrend_def record_residuals_def
  converged_def res1_of_def res2_of_def res3_of_def volumeint_def Integral_def vdot_def sdot_def
  vsub_def ssub_def vfn_def pfn_def interp_def np_sqrt_def np_div_def np_abs_def np_lt_def
  example_setting_def example_mesh_def example_top_def init_state_def

lemma example_area: "Integral (\<lambda>q. 1) (top_wall example_setting) = 1"
  by (simp add: eval_defs)

lemma example_run_isotropic:
  "picard Isotropic pyint example_setting md_isotropic [(0, 0)] [0, 0] =
     (\<lparr>velocityField = [(1, 0)], pressureField = [0, 2],
       prevVelocityField = [(1, 0)], prevPressureField = [0, 1],
       count = 2, res1Vals = [Some 1, Some 0], res2Vals = [Some 1, Some (1 / 2)],
       res3Vals = [Some 1, Some (1 / sqrt 6)], solves = 2\<rparr>, Break)"
  by (simp add: picard_unfold example_area eval_nat_numeral eval_defs set_maxIts_def md_isotropic_def
      Let_def real_sqrt_divide)

lemma example_run_ti_model:
  "picard TI_model pyint example_setting md_ti_model [(0, 0)] [0, 0] =
     (\<lparr>velocityField = [(1, 0)], pressureField = [0, 2],
       prevVelocityField = [(1, 0)], prevPressureField = [0, 1],
       count = 2, res1Vals = [Some 1, Some 0], res2Vals = [Some 0, Some 0],
       res3Vals = [Some 1, Some (1 / sqrt 6)], solves = 2\<rparr>, Break)"
  by (simp add: picard_unfold example_area eval_nat_numeral eval_defs set_maxIts_def md_ti_model_def
      Let_def real_sqrt_divide)

section \<open>The stopping rule\<close>

lemma init_state_simps:
  "count (init_state v p) = 0" "solves (init_state v p) = 0" "res1Vals (init_state v p) = []"
  "res2Vals (init_state v p) = []" "res3Vals (init_state v p) = []"
  "velocityField (init_state v p) = v" "pressureField (init_state v p) = p"
  by (simp_all add: init_state_def)

lemma same_but_res23_init:
  "same_but_res23 (init_state v p) ((init_state v p)\<lparr>res2Vals := a, res3Vals := b\<rparr>)"
  by (simp add: same_but_res23_def)

text \<open>
  Claim C1, as amended. With a numeric \<^verbatim>\<open>md.tol\<close> and a top wall of non-zero area, the Picard loop
  of either script calls the solver once per iteration, records one first residual per
  iteration and runs at most \<^verbatim>\<open>int(md.maxIts)\<close> iterations. It ends either by exhausting
  the range, and then no first residual was below the tolerance, or by the break, and
  then the last first residual is below the tolerance and none before it was. The
  second and third residual have no part in this: with other recorded histories of
  them, and with the other script's formula for the second one, the loop ends in the
  same way with the same fields, count and first residuals.
\<close>

theorem picard_stops_on_res1:
  assumes area: "Integral (\<lambda>q. 1) (top_wall env) \<noteq> 0"
    and tol: "md ''tol'' = Some tolv" "real_of tolv = Some t"
    and run: "picard scr pyint env md v p = (s, out)"
  shows "\<exists>m n. set_maxIts scr md ''maxIts'' = Some m \<and> py_int pyint m = Inr (int n) \<and>
           solves s = count s \<and> length (res1Vals s) = count s \<and> count s \<le> n \<and>
           (out = Continue \<and> count s = n \<and> (\<forall>r\<in>set (res1Vals s). \<not> np_lt r t) \<or>
            out = Break \<and> 0 < count s \<and> np_lt (last (res1Vals s)) t \<and>
              (\<forall>r\<in>set (butlast (res1Vals s)). \<not> np_lt r t)) \<and>
           (\<forall>scr' a b. \<exists>s'.
              picard_loop scr' env (set_maxIts scr md) (Integral (\<lambda>q. 1) (top_wall env)) n
                ((init_state v p)\<lparr>res2Vals := a, res3Vals := b\<rparr>) = (s', out) \<and>
              same_but_res23 s s')"
proof -
  let ?n = "case scr of Isotropic \<Rightarrow> 10 | TI_model \<Rightarrow> (4::nat)"
  let ?md = "set_maxIts scr md"
  let ?area = "Integral (\<lambda>q. 1) (top_wall env)"
  obtain m where m: "?md ''maxIts'' = Some m" "py_int pyint m = Inr (int ?n)"
    using maxIts_int[of scr md pyint] by blast
  have loop: "picard_loop scr env ?md ?area ?n (init_state v p) = (s, out)"
    using run by (simp add: picard_unfold)
  have tol': "?md ''tol'' = Some tolv" using tol(1) by (simp add: set_maxIts_tol)
  obtain ys where ys: "res1Vals s = res1Vals (init_state v p) @ ys"
    "count s = count (init_state v p) + length ys"
    "solves s = solves (init_state v p) + length ys" "length ys \<le> ?n"
    "out = Continue \<and> length ys = ?n \<and> (\<forall>y\<in>set ys. \<not> np_lt y t) \<or>
     out = Break \<and> ys \<noteq> [] \<and> np_lt (last ys) t \<and> (\<forall>y\<in>set (butlast ys). \<not> np_lt y t)"
    using picard_loop_history[where md = ?md and v = tolv and t = t and area = ?area, OF area _ tol(2) loop] tol'
    by blast
  have r: "res1Vals s = ys" "count s = length ys" "solves s = length ys"
    using ys(1-3) by (simp_all add: init_state_simps)
  have 1: "solves s = count s \<and> length (res1Vals s) = count s \<and> count s \<le> ?n"
    using r ys(4) by simp
  have 2: "out = Continue \<and> count s = ?n \<and> (\<forall>r\<in>set (res1Vals s). \<not> np_lt r t) \<or>
            out = Break \<and> 0 < count s \<and> np_lt (last (res1Vals s)) t \<and>
              (\<forall>r\<in>set (butlast (res1Vals s)). \<not> np_lt r t)"
    using ys(5) r by auto
  have 3: "\<exists>s'. picard_loop scr' env ?md ?area ?n
                ((init_state v p)\<lparr>res2Vals := a, res3Vals := b\<rparr>) = (s', out) \<and>
              same_but_res23 s s'" for scr' a b
    using picard_loop_same[OF same_but_res23_init loop] by blast
  show ?thesis using m 1 2 3 by blast
qed

theorem picard_stops_on_res1_witness:
  "Integral (\<lambda>q. 1) (top_wall example_setting) \<noteq> 0 \<and>
   md_isotropic ''tol'' = Some (VFloat (1 / 10 ^ 10)) \<and>
   real_of (VFloat (1 / 10 ^ 10)) = Some (1 / 10 ^ 10) \<and>
   picard Isotropic (\<lambda>s. None) example_setting md_isotropic [(0, 0)] [0, 0] =
     (\<lparr>velocityField = [(1, 0)], pressureField = [0, 2],
       prevVelocityField = [(1, 0)], prevPressureField = [0, 1],
       count = 2, res1Vals = [Some 1, Some 0], res2Vals = [Some 1, Some (1 / 2)],
       res3Vals = [Some 1, Some (1 / sqrt 6)], solves = 2\<rparr>, Break) \<and>
   np_lt (Some 0) (1 / 10 ^ 10) \<and> \<not> np_lt (Some 1) (1 / 10 ^ 10)"
proof -
  have a: "Integral (\<lambda>q. 1) (top_wall example_setting) \<noteq> 0"
    by (simp add: example_area)
  have t: "md_isotropic ''tol'' = Some (VFloat (1 / 10 ^ 10))"
    by (simp add: md_isotropic_def)
  have r: "real_of (VFloat (1 / 10 ^ 10)) = Some (1 / 10 ^ 10)"
    by simp
  have run: "picard Isotropic (\<lambda>s. None) example_setting md_isotropic [(0, 0)] [0, 0] =
     (\<lparr>velocityField = [(1, 0)], pressureField = [0, 2],
       prevVelocityField = [(1, 0)], prevPressureField = [0, 1],
       count = 2, res1Vals = [Some 1, Some 0], res2Vals = [Some 1, Some (1 / 2)],
       res3Vals = [Some 1, Some (1 / sqrt 6)], solves = 2\<rparr>, Break)"
    by (rule example_run_isotropic)
  from picard_stops_on_res1[where md = md_isotropic, OF a t r run]
  have "np_lt (Some 0) (1 / 10 ^ 10) \<and> \<not> np_lt (Some 1) (1 / 10 ^ 10)"
    by (elim exE conjE) simp
  then show ?thesis using a t r run by blast
qed

text \<open>
  Claim C1 as stated fails for the run configuration with the argument \<^verbatim>\<open>md.tol=abc\<close>:
  the override loop stores the string, since \<^verbatim>\<open>float\<close> refuses it, and the comparison of
  the first residual with a string raises TypeError at the end of the first iteration.
  The loop ends there, after one iteration out of ten, with a first residual of 1 and
  without the break.
\<close>

theorem picard_string_tol_counterexample:
  "snd (override_loop refuse_class_dict (\<lambda>s. None) [''md.tol=abc''] (dp_isotropic, md_isotropic)) =
     md_isotropic(''tol'' \<mapsto> VStr ''abc'') \<and>
   set_maxIts Isotropic (md_isotropic(''tol'' \<mapsto> VStr ''abc'')) ''maxIts'' = Some (VFloat 10) \<and>
   py_int (\<lambda>s. None) (VFloat 10) = Inr 10 \<and>
   picard Isotropic (\<lambda>s. None) example_setting (md_isotropic(''tol'' \<mapsto> VStr ''abc''))
       [(0, 0)] [0, 0] =
     (\<lparr>velocityField = [(1, 0)], pressureField = [0, 1],
       prevVelocityField = [(0, 0)], prevPressureField = [0, 0],
       count = 1, res1Vals = [Some 1], res2Vals = [Some 1],
       res3Vals = [Some 1], solves = 1\<rparr>, Raised TypeError)"
proof -
  have o: "snd (override_loop refuse_class_dict (\<lambda>s. None) [''md.tol=abc''] (dp_isotropic, md_isotropic)) =
     md_isotropic(''tol'' \<mapsto> VStr ''abc'')"
    by (simp add: override_loop_def override_token_def override_body_def parse_token_def
        split_item_def py_split_def convert_val_def update_dict_def startswith_def getitem_def
        setitem_def refuse_class_dict_def numeral_2_eq_2)
  have m: "set_maxIts Isotropic (md_isotropic(''tol'' \<mapsto> VStr ''abc'')) ''maxIts'' = Some (VFloat 10)"
    by (simp add: set_maxIts_def)
  have i: "py_int (\<lambda>s. None) (VFloat 10) = Inr 10"
    by (simp add: py_int_def)
  have r: "picard Isotropic (\<lambda>s. None) example_setting (md_isotropic(''tol'' \<mapsto> VStr ''abc''))
       [(0, 0)] [0, 0] =
     (\<lparr>velocityField = [(1, 0)], pressureField = [0, 1],
       prevVelocityField = [(0, 0)], prevPressureField = [0, 0],
       count = 1, res1Vals = [Some 1], res2Vals = [Some 1],
       res3Vals = [Some 1], solves = 1\<rparr>, Raised TypeError)"
    by (simp add: picard_unfold example_area eval_nat_numeral eval_defs set_maxIts_def
        Let_def real_sqrt_divide)
  show ?thesis by (rule conjI[OF o conjI[OF m conjI[OF i r]]])
qed

section \<open>The bound on the iterations\<close>

lemma iteration_count_le: "count (fst (iteration scr env md area s)) \<le> Suc (count s)"
  by (auto simp: iteration_def Let_def call_solve_simps save_prev_simps record_residuals_simps
      split: sum.splits bool.splits dest!: detrend_Inr)

lemma picard_loop_bound:
  "picard_loop scr env md area n s = (s', out) \<Longrightarrow>
   count s' \<le> count s + n \<and> solves s' \<le> solves s + n"
proof (induction n arbitrary: s)
  case 0
  then show ?case by simp
next
  case (Suc n)
  obtain s1 o1 where it: "iteration scr env md area s = (s1, o1)"
    by (cases "iteration scr env md area s")
  have b: "count s1 \<le> Suc (count s)" "solves s1 = Suc (solves s)"
    using iteration_count_le[of scr env md area s] iteration_solves[of scr env md area s] it
    by simp_all
  show ?case
  proof (cases "o1 = Continue")
    case True
    then have "picard_loop scr env md area n s1 = (s', out)" using Suc.prems it by simp
    from Suc.IH[OF this] show ?thesis using b by simp
  next
    case False
    then have "s' = s1" using Suc.prems it by (cases o1) auto
    then show ?thesis using b by simp
  qed
qed

text \<open>
  Claim C9. Each script assigns \<^verbatim>\<open>md.maxIts\<close> just before the loop, so whatever \<^verbatim>\<open>md\<close>
  holds after the command-line overrides, \<^verbatim>\<open>int(md.maxIts)\<close> is 10 in \<^verbatim>\<open>isotropic.py\<close> and 4
  in \<^verbatim>\<open>ti_model.py\<close>, and the loop runs (and calls the solver) at most that many times.
\<close>

theorem picard_iteration_bound:
  "(\<exists>m. set_maxIts Isotropic md ''maxIts'' = Some m \<and> py_int pyint m = Inr 10) \<and>
   count (fst (picard Isotropic pyint env md v p)) \<le> 10 \<and>
   solves (fst (picard Isotropic pyint env md v p)) \<le> 10 \<and>
   (\<exists>m. set_maxIts TI_model md ''maxIts'' = Some m \<and> py_int pyint m = Inr 4) \<and>
   count (fst (picard TI_model pyint env md v p)) \<le> 4 \<and>
   solves (fst (picard TI_model pyint env md v p)) \<le> 4"
proof -
  have a: "count (fst (picard scr pyint env md v p)) \<le> (case scr of Isotropic \<Rightarrow> 10 | TI_model \<Rightarrow> 4) \<and>
        solves (fst (picard scr pyint env md v p)) \<le> (case scr of Isotropic \<Rightarrow> 10 | TI_model \<Rightarrow> 4)" for scr
    using picard_loop_bound[OF prod.collapse[symmetric],
        of scr env "set_maxIts scr md" "Integral (\<lambda>q. 1) (top_wall env)"
        "case scr of Isotropic \<Rightarrow> 10 | TI_model \<Rightarrow> 4" "init_state v p"]
    by (simp add: picard_unfold init_state_simps)
  show ?thesis using a[of Isotropic] a[of TI_model]
    by (simp add: set_maxIts_def py_int_def)
qed

section \<open>The histories as iterates\<close>

lemma res_of_record:
  "res1_of m (record_residuals scr env s) = res1_of m s"
  "res2_of scr' m (record_residuals scr env s) = res2_of scr' m s"
  "res3_of m (record_residuals scr env s) = res3_of m s"
  by (cases scr'; simp add: res1_of_def res2_of_def res3_of_def record_residuals_simps)+

lemma iteration_appends:
  assumes "area \<noteq> 0"
  shows "res1Vals (fst (iteration scr env md area s)) =
           res1Vals s @ [res1_of (mesh env) (fst (iteration scr env md area s))]"
    and "res2Vals (fst (iteration scr env md area s)) =
           res2Vals s @ [res2_of scr (mesh env) (fst (iteration scr env md area s))]"
    and "res3Vals (fst (iteration scr env md area s)) =
           res3Vals s @ [res3_of (mesh env) (fst (iteration scr env md area s))]"
    and "count (fst (iteration scr env md area s)) = Suc (count s)"
proof -
  obtain s2 where d: "detrend env area (call_solve env (save_prev s)) = Inr s2"
    and f: "fst (iteration scr env md area s) = record_residuals scr env s2"
    using iteration_cases[OF assms] by blast
  note k = detrend_keeps[OF d]
  show "res1Vals (fst (iteration scr env md area s)) =
           res1Vals s @ [res1_of (mesh env) (fst (iteration scr env md area s))]"
    unfolding f by (simp add: record_residuals_simps res_of_record k)
  show "res2Vals (fst (iteration scr env md area s)) =
           res2Vals s @ [res2_of scr (mesh env) (fst (iteration scr env md area s))]"
    unfolding f by (simp add: record_residuals_simps res_of_record k)
  show "res3Vals (fst (iteration scr env md area s)) =
           res3Vals s @ [res3_of (mesh env) (fst (iteration scr env md area s))]"
    unfolding f by (simp add: record_residuals_simps res_of_record k)
  show "count (fst (iteration scr env md area s)) = Suc (count s)"
    unfolding f by (simp add: record_residuals_simps k)
qed

lemma funpow_histories:
  assumes "area \<noteq> 0"
  shows "res1Vals (((\<lambda>x. fst (iteration scr env md area x)) ^^ k) s) =
           res1Vals s @ map (\<lambda>i. res1_of (mesh env) (((\<lambda>x. fst (iteration scr env md area x)) ^^ Suc i) s)) [0..<k] \<and>
         res2Vals (((\<lambda>x. fst (iteration scr env md area x)) ^^ k) s) =
           res2Vals s @ map (\<lambda>i. res2_of scr (mesh env) (((\<lambda>x. fst (iteration scr env md area x)) ^^ Suc i) s)) [0..<k] \<and>
         res3Vals (((\<lambda>x. fst (iteration scr env md area x)) ^^ k) s) =
           res3Vals s @ map (\<lambda>i. res3_of (mesh env) (((\<lambda>x. fst (iteration scr env md area x)) ^^ Suc i) s)) [0..<k] \<and>
         count (((\<lambda>x. fst (iteration scr env md area x)) ^^ k) s) = count s + k"
proof (induction k)
  case 0
  then show ?case by simp
next
  case (Suc k)
  let ?step = "\<lambda>x. fst (iteration scr env md area x)"
  have st: "(?step ^^ Suc k) s = fst (iteration scr env md area ((?step ^^ k) s))"
    by simp
  have a: "res1Vals ((?step ^^ Suc k) s) = res1Vals ((?step ^^ k) s) @ [res1_of (mesh env) ((?step ^^ Suc k) s)]"
    "res2Vals ((?step ^^ Suc k) s) = res2Vals ((?step ^^ k) s) @ [res2_of scr (mesh env) ((?step ^^ Suc k) s)]"
    "res3Vals ((?step ^^ Suc k) s) = res3Vals ((?step ^^ k) s) @ [res3_of (mesh env) ((?step ^^ Suc k) s)]"
    "count ((?step ^^ Suc k) s) = Suc (count ((?step ^^ k) s))"
    unfolding st by (rule iteration_appends[OF assms])+
  show ?case
    unfolding a using Suc.IH by simp
qed

lemma picard_loop_funpow:
  "picard_loop scr env md area n s = (s', out) \<Longrightarrow>
   \<exists>k\<le>n. s' = ((\<lambda>x. fst (iteration scr env md area x)) ^^ k) s \<and> (0 < n \<longrightarrow> 0 < k)"
proof (induction n arbitrary: s)
  case 0
  then show ?case by simp
next
  case (Suc n)
  let ?step = "\<lambda>x. fst (iteration scr env md area x)"
  obtain s1 o1 where it: "iteration scr env md area s = (s1, o1)"
    by (cases "iteration scr env md area s")
  then have s1: "s1 = ?step s" by simp
  show ?case
  proof (cases "o1 = Continue")
    case True
    then have "picard_loop scr env md area n s1 = (s', out)" using Suc.prems it by simp
    from Suc.IH[OF this] obtain k where k: "k \<le> n" "s' = (?step ^^ k) s1" by blast
    have "s' = (?step ^^ Suc k) s"
      unfolding k(2) s1 using funpow_swap1[of ?step k s] by simp
    then show ?thesis using k(1) by (intro exI[of _ "Suc k"]) simp
  next
    case False
    then have "s' = s1" using Suc.prems it by (cases o1) auto
    then have "s' = (?step ^^ Suc 0) s" using s1 by simp
    then show ?thesis by (intro exI[of _ "Suc 0"]) simp
  qed
qed

lemma picard_loop_zero_area:
  "picard_loop scr env md 0 (Suc n) s = (s', out) \<Longrightarrow> out = Raised ZeroDivisionError"
  by (simp add: iteration_zero_area)

lemma path_join_outputPath:
  "path_join (outputPath Model ModNum) name = ''results/'' @ Model @ ''/'' @ str_int ModNum @ ''/'' @ name"
  by (simp add: path_join_def outputPath_def)

text \<open>
  Claim C8. When the Picard cell ends without an exception, the file
  \<^verbatim>\<open>results/<Model>/<ModNum>/solver.csv\<close> written by the process of rank 0 holds exactly
  three rows, the histories of \<^verbatim>\<open>res1\<close>, \<^verbatim>\<open>res2\<close> and \<^verbatim>\<open>res3\<close> in this order. Each row
  has one entry per executed iteration, and entry \<open>i\<close> is the residual computed from the
  fields as they are after iteration \<open>i + 1\<close>.
\<close>

theorem solver_csv_rows:
  assumes run: "picard scr pyint env md v p = (s, out)"
    and fin: "out = Break \<or> out = Continue"
  shows "write_csvs scr 0 (outputPath Model ModNum) someVals params s fs
           (''results/'' @ Model @ ''/'' @ str_int ModNum @ ''/solver.csv'') =
           Some [map Num (res1Vals s), map Num (res2Vals s), map Num (res3Vals s)] \<and>
         length (res1Vals s) = count s \<and> length (res2Vals s) = count s \<and>
         length (res3Vals s) = count s \<and> solves s = count s \<and>
         res1Vals s = map (\<lambda>i. res1_of (mesh env)
             (((\<lambda>x. fst (iteration scr env (set_maxIts scr md) (Integral (\<lambda>q. 1) (top_wall env)) x)) ^^ Suc i)
                (init_state v p))) [0..<count s] \<and>
         res2Vals s = map (\<lambda>i. res2_of scr (mesh env)
             (((\<lambda>x. fst (iteration scr env (set_maxIts scr md) (Integral (\<lambda>q. 1) (top_wall env)) x)) ^^ Suc i)
                (init_state v p))) [0..<count s] \<and>
         res3Vals s = map (\<lambda>i. res3_of (mesh env)
             (((\<lambda>x. fst (iteration scr env (set_maxIts scr md) (Integral (\<lambda>q. 1) (top_wall env)) x)) ^^ Suc i)
                (init_state v p))) [0..<count s]"
proof -
  let ?n = "case scr of Isotropic \<Rightarrow> 10 | TI_model \<Rightarrow> (4::nat)"
  let ?md = "set_maxIts scr md"
  let ?area = "Integral (\<lambda>q. 1) (top_wall env)"
  let ?step = "\<lambda>x. fst (iteration scr env ?md ?area x)"
  have loop: "picard_loop scr env ?md ?area ?n (init_state v p) = (s, out)"
    using run by (simp add: picard_unfold)
  obtain n' where n': "?n = Suc n'" by (cases scr) (simp_all add: eval_nat_numeral)
  have area: "?area \<noteq> 0"
  proof
    assume z: "?area = 0"
    have "out = Raised ZeroDivisionError"
      using loop picard_loop_zero_area[where scr = scr and env = env and md = ?md and n = n'
          and s = "init_state v p" and s' = s and out = out]
      unfolding z n' by simp
    then show False using fin by simp
  qed
  obtain k where k: "s = (?step ^^ k) (init_state v p)"
    using picard_loop_funpow[OF loop] by blast
  note h = funpow_histories[OF area, where scr = scr and env = env and md = ?md and k = k
      and s = "init_state v p"]
  have c: "count s = k" using h k by (simp add: init_state_simps)
  have r: "res1Vals s = map (\<lambda>i. res1_of (mesh env) ((?step ^^ Suc i) (init_state v p))) [0..<count s]"
    "res2Vals s = map (\<lambda>i. res2_of scr (mesh env) ((?step ^^ Suc i) (init_state v p))) [0..<count s]"
    "res3Vals s = map (\<lambda>i. res3_of (mesh env) ((?step ^^ Suc i) (init_state v p))) [0..<count s]"
    unfolding c using h unfolding k[symmetric] by (simp_all add: init_state_simps)
  have len: "length (res1Vals s) = count s" "length (res2Vals s) = count s"
    "length (res3Vals s) = count s"
    by (subst r; simp)+
  have sol: "solves s = count s"
  proof -
    have "solves ((?step ^^ j) x) = solves x + j" for j x
      by (induction j) (simp_all add: iteration_solves)
    then show ?thesis using k c by (simp add: init_state_simps)
  qed
  have csv: "write_csvs scr 0 (outputPath Model ModNum) someVals params s fs
           (''results/'' @ Model @ ''/'' @ str_int ModNum @ ''/solver.csv'') =
           Some [map Num (res1Vals s), map Num (res2Vals s), map Num (res3Vals s)]"
    by (cases scr) (simp_all add: write_csvs_def path_join_outputPath Let_def)
  show ?thesis using csv len sol r by blast
qed

lemma str_int_0: "str_int 0 = ''0''"
  by code_simp

theorem solver_csv_rows_witness:
  "picard Isotropic (\<lambda>s. None) example_setting md_isotropic [(0, 0)] [0, 0] =
     (\<lparr>velocityField = [(1, 0)], pressureField = [0, 2],
       prevVelocityField = [(1, 0)], prevPressureField = [0, 1],
       count = 2, res1Vals = [Some 1, Some 0], res2Vals = [Some 1, Some (1 / 2)],
       res3Vals = [Some 1, Some (1 / sqrt 6)], solves = 2\<rparr>, Break) \<and>
   write_csvs Isotropic 0 (outputPath ''T'' 0) [] []
      (fst (picard Isotropic (\<lambda>s. None) example_setting md_isotropic [(0, 0)] [0, 0])) Map.empty
      ''results/T/0/solver.csv'' =
     Some [[Num (Some 1), Num (Some 0)], [Num (Some 1), Num (Some (1 / 2))],
           [Num (Some 1), Num (Some (1 / sqrt 6))]]"
proof -
  have run: "picard Isotropic (\<lambda>s. None) example_setting md_isotropic [(0, 0)] [0, 0] =
     (\<lparr>velocityField = [(1, 0)], pressureField = [0, 2],
       prevVelocityField = [(1, 0)], prevPressureField = [0, 1],
       count = 2, res1Vals = [Some 1, Some 0], res2Vals = [Some 1, Some (1 / 2)],
       res3Vals = [Some 1, Some (1 / sqrt 6)], solves = 2\<rparr>, Break)"
    by (rule example_run_isotropic)
  have "write_csvs Isotropic 0 (outputPath ''T'' 0) [] []
      \<lparr>velocityField = [(1, 0)], pressureField = [0, 2],
       prevVelocityField = [(1, 0)], prevPressureField = [0, 1],
       count = 2, res1Vals = [Some 1, Some 0], res2Vals = [Some 1, Some (1 / 2)],
       res3Vals = [Some 1, Some (1 / sqrt 6)], solves = 2\<rparr> Map.empty
      (''results/'' @ ''T'' @ ''/'' @ str_int 0 @ ''/solver.csv'') =
     Some [map Num [Some 1, Some 0], map Num [Some 1, Some (1 / 2)],
           map Num [Some 1, Some (1 / sqrt 6)]]"
    using conjunct1[OF solver_csv_rows[OF run disjI1[OF refl], where Model = "''T''" and ModNum = 0
      and someVals = "[]" and params = "[]" and fs = Map.empty]]
    by simp
  then show ?thesis unfolding run by (simp add: str_int_0)
qed

section \<open>The second residual\<close>

lemma iteration_snapshot:
  assumes "area \<noteq> 0"
  shows "prevVelocityField (fst (iteration scr env md area s)) = velocityField s \<and>
         prevPressureField (fst (iteration scr env md area s)) = pressureField s"
proof -
  obtain s2 where d: "detrend env area (call_solve env (save_prev s)) = Inr s2"
    and f: "fst (iteration scr env md area s) = record_residuals scr env s2"
    using iteration_cases[OF assms] by blast
  show ?thesis
    unfolding f using detrend_Inr[OF d]
    by (simp add: record_residuals_simps call_solve_simps save_prev_simps)
qed

lemma res2_of_ti_model:
  "res2_of TI_model m s = None \<or> res2_of TI_model m s = Some 0"
  by (simp add: res2_of_def ssub_def sdot_def volumeint_def Integral_def np_sqrt_def np_div_def
      np_abs_def Let_def)

text \<open>
  Claim C2, in \<^verbatim>\<open>ti_model.py\<close>: the second residual is formed from
  \<^verbatim>\<open>pressureField - pressureField\<close>, so it is zero (or not a number) whatever the saved
  previous pressure is. In the example setting the pressure changes by one in each
  iteration and its norm is 1, then 2: \<^verbatim>\<open>isotropic.py\<close> records 1 and 1/2,
  \<^verbatim>\<open>ti_model.py\<close> records 0 and 0.
\<close>

theorem ti_model_res2_is_zero:
  "res2Vals (fst (picard TI_model (\<lambda>s. None) example_setting md_ti_model [(0, 0)] [0, 0])) =
     [Some 0, Some 0] \<and>
   prevPressureField (fst (picard TI_model (\<lambda>s. None) example_setting md_ti_model [(0, 0)] [0, 0])) =
     [0, 1] \<and>
   pressureField (fst (picard TI_model (\<lambda>s. None) example_setting md_ti_model [(0, 0)] [0, 0])) =
     [0, 2] \<and>
   res2Vals (fst (picard Isotropic (\<lambda>s. None) example_setting md_isotropic [(0, 0)] [0, 0])) =
     [Some 1, Some (1 / 2)]"
  by (simp add: example_run_ti_model example_run_isotropic)

section \<open>The pressure drift\<close>

lemma interp_shift:
  "length shape = length p \<Longrightarrow>
   interp shape (map (\<lambda>d. d - c) p) = interp shape p - c * sum_list shape"
proof (induction shape p rule: list_induct2)
  case Nil
  then show ?case by (simp add: interp_def)
next
  case (Cons x xs y ys)
  then show ?case by (simp add: interp_def algebra_simps)
qed

lemma Integral_shift:
  assumes "\<forall>q\<in>set quad. sum_list (pshape q) = 1 \<and> length (pshape q) = length p"
  shows "Integral (pfn (map (\<lambda>d. d - c) p)) quad = Integral (pfn p) quad - c * Integral (\<lambda>q. 1) quad"
  using assms
proof (induction quad)
  case Nil
  then show ?case by (simp add: Integral_def)
next
  case (Cons q quad)
  have q: "pfn (map (\<lambda>d. d - c) p) q = pfn p q - c"
    using Cons.prems by (simp add: pfn_def interp_shift)
  have ih: "Integral (pfn (map (\<lambda>d. d - c) p)) quad = Integral (pfn p) quad - c * Integral (\<lambda>q. 1) quad"
    using Cons by simp
  have cons: "Integral F (q # quad) = weight q * F q + Integral F quad" for F
    by (simp add: Integral_def)
  show ?case unfolding cons q ih by (simp add: algebra_simps)
qed

lemma detrend_zero_mean:
  assumes "area = Integral (\<lambda>q. 1) (top_wall env)" "area \<noteq> 0"
    and "\<forall>q\<in>set (top_wall env). sum_list (pshape q) = 1 \<and> length (pshape q) = length (pressureField s)"
    and "detrend env area s = Inr s'"
  shows "Integral (pfn (pressureField s')) (top_wall env) = 0"
proof -
  have p: "pressureField s' =
      map (\<lambda>d. d - Integral (pfn (pressureField s)) (top_wall env) / area) (pressureField s)"
    using detrend_Inr[OF assms(4)] by simp
  show ?thesis
    unfolding p Integral_shift[OF assms(3)] using assms(1,2) by simp
qed

text \<open>
  Claim C3. In every iteration the pressure returned by the solve is shifted, at every
  node, by the constant \<open>p0 / area\<close>, where \<open>p0\<close> is the integral of that pressure over the
  top wall and \<open>area\<close> the integral of one. The residuals are computed from the shifted
  pressure, whose integral over the top wall is zero; so is that of the pressure the
  loop ends with. The arithmetic is exact, the area is not zero, and the shape
  functions of the pressure sum to one at the sample points of the top wall.
\<close>

theorem pressure_detrended:
  assumes area: "Integral (\<lambda>q. 1) (top_wall env) \<noteq> 0"
    and unity: "\<forall>q\<in>set (top_wall env). sum_list (pshape q) = 1 \<and> length (pshape q) = ndof"
    and dofs: "\<forall>f. length (snd (solve env f)) = ndof"
  shows "pressureField (fst (iteration scr env md (Integral (\<lambda>q. 1) (top_wall env)) s)) =
           map (\<lambda>d. d - Integral (pfn (snd (solve env (velocityField s, pressureField s)))) (top_wall env) /
                        Integral (\<lambda>q. 1) (top_wall env))
               (snd (solve env (velocityField s, pressureField s))) \<and>
         Integral (pfn (pressureField (fst (iteration scr env md (Integral (\<lambda>q. 1) (top_wall env)) s))))
           (top_wall env) = 0 \<and>
         Integral (pfn (pressureField (fst (picard scr pyint env md v p)))) (top_wall env) = 0"
proof -
  let ?area = "Integral (\<lambda>q. 1) (top_wall env)"
  have it: "pressureField (fst (iteration scr env md' ?area x)) =
           map (\<lambda>d. d - Integral (pfn (snd (solve env (velocityField x, pressureField x)))) (top_wall env) / ?area)
               (snd (solve env (velocityField x, pressureField x))) \<and>
         Integral (pfn (pressureField (fst (iteration scr env md' ?area x)))) (top_wall env) = 0"
    for x md'
  proof -
    obtain s2 where d: "detrend env ?area (call_solve env (save_prev x)) = Inr s2"
      and f: "fst (iteration scr env md' ?area x) = record_residuals scr env s2"
      using iteration_cases[OF area] by blast
    have len: "\<forall>q\<in>set (top_wall env). sum_list (pshape q) = 1 \<and>
        length (pshape q) = length (pressureField (call_solve env (save_prev x)))"
      using unity dofs by (simp add: call_solve_simps)
    have z: "Integral (pfn (pressureField s2)) (top_wall env) = 0"
      using detrend_zero_mean[OF refl area len d] .
    have "pressureField s2 =
        map (\<lambda>d. d - Integral (pfn (snd (solve env (velocityField x, pressureField x)))) (top_wall env) / ?area)
               (snd (solve env (velocityField x, pressureField x)))"
      using detrend_Inr[OF d] by (simp add: call_solve_simps save_prev_simps)
    then show ?thesis using z unfolding f by (simp add: record_residuals_simps)
  qed
  let ?n = "case scr of Isotropic \<Rightarrow> 10 | TI_model \<Rightarrow> (4::nat)"
  let ?md = "set_maxIts scr md"
  let ?step = "\<lambda>x. fst (iteration scr env ?md ?area x)"
  have "0 < ?n" by (cases scr) simp_all
  then obtain k where k: "fst (picard scr pyint env md v p) = (?step ^^ k) (init_state v p)" "0 < k"
    using picard_loop_funpow[OF prod.collapse[symmetric], where scr = scr and env = env
        and md = ?md and area = ?area and n = ?n and s = "init_state v p"]
    by (auto simp: picard_unfold)
  then obtain j where j: "k = Suc j" by (cases k) auto
  have e: "fst (picard scr pyint env md v p) = ?step ((?step ^^ j) (init_state v p))"
    unfolding k(1) j by simp
  have "Integral (pfn (pressureField (fst (picard scr pyint env md v p)))) (top_wall env) = 0"
    unfolding e by (rule conjunct2[OF it])
  then show ?thesis using it[of md s] by blast
qed

theorem pressure_detrended_witness:
  "Integral (\<lambda>q. 1) (top_wall drift_setting) = 2 \<and>
   map (\<lambda>q. (sum_list (pshape q), length (pshape q))) (top_wall drift_setting) = [(1, 2)] \<and>
   (\<forall>f. snd (solve drift_setting f) = [3, 5]) \<and>
   Integral (pfn [3, 5]) (top_wall drift_setting) = 6 \<and>
   pressureField (fst (iteration Isotropic drift_setting md_isotropic 2 (init_state [(0, 0)] [0, 0]))) =
     [0, 2] \<and>
   Integral (pfn [0, 2]) (top_wall drift_setting) = 0"
proof -
  have a2: "Integral (\<lambda>q. 1) (top_wall drift_setting) = 2"
    by (simp add: drift_setting_def drift_top_def Integral_def)
  have a: "Integral (\<lambda>q. 1) (top_wall drift_setting) \<noteq> 0"
    unfolding a2 by simp
  have u: "\<forall>q\<in>set (top_wall drift_setting). sum_list (pshape q) = 1 \<and> length (pshape q) = 2"
    by (simp add: drift_setting_def drift_top_def)
  have sp: "snd (solve drift_setting f) = [3, 5]" for f
    by (simp add: drift_setting_def split: prod.splits)
  have d: "\<forall>f. length (snd (solve drift_setting f)) = 2"
    by (simp add: sp)
  have p0: "Integral (pfn [3, 5]) (top_wall drift_setting) = 6"
    by (simp add: drift_setting_def drift_top_def Integral_def pfn_def interp_def)
  note th = pressure_detrended[OF a u d, where scr = Isotropic and pyint = "\<lambda>s. None"
      and md = md_isotropic and v = "[(0, 0)]" and p = "[0, 0]" and s = "init_state [(0, 0)] [0, 0]"]
  have it: "pressureField (fst (iteration Isotropic drift_setting md_isotropic 2
              (init_state [(0, 0)] [0, 0]))) = [0, 2]"
    using conjunct1[OF th] unfolding sp p0 a2 by simp
  have z: "Integral (pfn [0, 2]) (top_wall drift_setting) = 0"
    using conjunct1[OF conjunct2[OF th]] unfolding a2 it .
  have m: "map (\<lambda>q. (sum_list (pshape q), length (pshape q))) (top_wall drift_setting) = [(1, 2)]"
    by (simp add: drift_setting_def drift_top_def)
  have sp': "\<forall>f. snd (solve drift_setting f) = [3, 5]"
    using sp by simp
  show ?thesis by (rule conjI[OF a2 conjI[OF m conjI[OF sp' conjI[OF p0 conjI[OF it z]]]]])
qed

section \<open>Non-dimensional parameters\<close>

lemma scaled_Some:
  "scaled dp k sf s = Some r \<Longrightarrow>
   \<exists>x y. getnum dp k = Some x \<and> sf s = Some y \<and> y \<noteq> 0 \<and> r = x / y"
  by (auto simp: scaled_def pydiv_def split: option.splits if_splits)

lemma scaled_dp_Some:
  "scaled_dp dp k s = Some r \<Longrightarrow>
   \<exists>x y. getnum dp k = Some x \<and> getnum dp s = Some y \<and> y \<noteq> 0 \<and> r = x / y"
  by (auto simp: scaled_dp_def pydiv_def split: option.splits if_splits)

lemma ndp_isotropic_Some:
  assumes "ndp_isotropic dp sf = Some ndp"
  obtains depth U0 asthenosphere eta1 eta2 etaMin cohesion fa g rho notchWidth a lam where
    "scaled dp ''depth'' sf ''LS'' = Some depth" "scaled dp ''U0'' sf ''vel'' = Some U0"
    "scaled dp ''asthenosphere'' sf ''LS'' = Some asthenosphere"
    "scaled dp ''eta1'' sf ''eta0'' = Some eta1" "scaled dp ''eta2'' sf ''eta0'' = Some eta2"
    "scaled dp ''etaMin'' sf ''eta0'' = Some etaMin"
    "scaled dp ''cohesion'' sf ''stress'' = Some cohesion" "getnum dp ''fa'' = Some fa"
    "scaled dp ''g'' sf ''g'' = Some g" "scaled dp ''rho'' sf ''rho'' = Some rho"
    "scaled dp ''notchWidth'' sf ''LS'' = Some notchWidth" "dp ''a'' = Some a"
    "scaled dp ''lam'' sf ''eta0'' = Some lam"
    "ndp = [''depth'' \<mapsto> VFloat depth,
                ''U0'' \<mapsto> VFloat U0,
                ''asthenosphere'' \<mapsto> VFloat asthenosphere,
                ''eta1'' \<mapsto> VFloat eta1,
                ''eta2'' \<mapsto> VFloat eta2,
                ''etaMin'' \<mapsto> VFloat etaMin,
                ''cohesion'' \<mapsto> VFloat (cohesion * cos (radians fa)),
                ''fa'' \<mapsto> VFloat (sin (radians fa)),
                ''g'' \<mapsto> VFloat g,
                ''rho'' \<mapsto> VFloat rho,
                ''notchWidth'' \<mapsto> VFloat notchWidth,
                ''a'' \<mapsto> a,
                ''lam'' \<mapsto> VFloat lam]"
  using assms unfolding ndp_isotropic_def
  by (auto split: option.splits)


lemma ndp_ti_model_Some:
  assumes "ndp_ti_model dp sf = Some ndp"
  obtains U asthenosphere eta1 eta2 etaMin cohesion fa g rho notchWidth a where
    "scaled dp ''U0'' sf ''vel'' = Some U" "scaled_dp dp ''asthenosphere'' ''LS'' = Some asthenosphere"
    "scaled_dp dp ''eta1'' ''eta0'' = Some eta1" "scaled_dp dp ''eta2'' ''eta0'' = Some eta2"
    "scaled_dp dp ''etaMin'' ''eta0'' = Some etaMin"
    "scaled dp ''cohesion'' sf ''stress'' = Some cohesion" "getnum dp ''fa'' = Some fa"
    "scaled dp ''g'' sf ''g'' = Some g" "scaled dp ''rho'' sf ''rho'' = Some rho"
    "scaled_dp dp ''notchWidth'' ''LS'' = Some notchWidth" "dp ''a'' = Some a"
    "ndp = [''U'' \<mapsto> VFloat U,
                ''asthenosphere'' \<mapsto> VFloat asthenosphere,
                ''eta1'' \<mapsto> VFloat eta1,
                ''eta2'' \<mapsto> VFloat eta2,
                ''etaMin'' \<mapsto> VFloat etaMin,
                ''cohesion'' \<mapsto> VFloat cohesion,
                ''fa'' \<mapsto> VFloat (tan ((pi / 180) * fa)),
                ''g'' \<mapsto> VFloat g,
                ''rho'' \<mapsto> VFloat rho,
                ''notchWidth'' \<mapsto> VFloat notchWidth,
                ''a'' \<mapsto> a]"
  using assms unfolding ndp_ti_model_def
  by (auto split: option.splits)

lemma nondim_isotropic_values:
  assumes "nondim_isotropic dp = Some (sf, ndp)"
  shows "(\<forall>(k, s)\<in>set [(''depth'', ''LS''), (''U0'', ''vel''), (''asthenosphere'', ''LS''),
             (''eta1'', ''eta0''), (''eta2'', ''eta0''), (''etaMin'', ''eta0''), (''g'', ''g''),
             (''rho'', ''rho''), (''notchWidth'', ''LS''), (''lam'', ''eta0'')].
           \<exists>x y. getnum dp k = Some x \<and> sf s = Some y \<and> y \<noteq> 0 \<and> ndp k = Some (VFloat (x / y))) \<and>
         (\<exists>c fa st. getnum dp ''cohesion'' = Some c \<and> getnum dp ''fa'' = Some fa \<and>
            sf ''stress'' = Some st \<and> st \<noteq> 0 \<and>
            ndp ''cohesion'' = Some (VFloat (c / st * cos (radians fa))) \<and>
            ndp ''fa'' = Some (VFloat (sin (radians fa)))) \<and>
         ndp ''a'' = dp ''a'' \<and> dp ''a'' \<noteq> None"
proof -
  have n: "ndp_isotropic dp sf = Some ndp"
    using assms by (auto simp: nondim_isotropic_def split: option.splits)
  from n show ?thesis
  proof (rule ndp_isotropic_Some)
    fix depth U0 asthenosphere eta1 eta2 etaMin cohesion fa g rho notchWidth a lam
    assume h: "scaled dp ''depth'' sf ''LS'' = Some depth" "scaled dp ''U0'' sf ''vel'' = Some U0"
      "scaled dp ''asthenosphere'' sf ''LS'' = Some asthenosphere"
      "scaled dp ''eta1'' sf ''eta0'' = Some eta1" "scaled dp ''eta2'' sf ''eta0'' = Some eta2"
      "scaled dp ''etaMin'' sf ''eta0'' = Some etaMin"
      "scaled dp ''cohesion'' sf ''stress'' = Some cohesion" "getnum dp ''fa'' = Some fa"
      "scaled dp ''g'' sf ''g'' = Some g" "scaled dp ''rho'' sf ''rho'' = Some rho"
      "scaled dp ''notchWidth'' sf ''LS'' = Some notchWidth" "dp ''a'' = Some a"
      "scaled dp ''lam'' sf ''eta0'' = Some lam"
    and ndp: "ndp = [''depth'' \<mapsto> VFloat depth,
                ''U0'' \<mapsto> VFloat U0,
                ''asthenosphere'' \<mapsto> VFloat asthenosphere,
                ''eta1'' \<mapsto> VFloat eta1,
                ''eta2'' \<mapsto> VFloat eta2,
                ''etaMin'' \<mapsto> VFloat etaMin,
                ''cohesion'' \<mapsto> VFloat (cohesion * cos (radians fa)),
                ''fa'' \<mapsto> VFloat (sin (radians fa)),
                ''g'' \<mapsto> VFloat g,
                ''rho'' \<mapsto> VFloat rho,
                ''notchWidth'' \<mapsto> VFloat notchWidth,
                ''a'' \<mapsto> a,
                ''lam'' \<mapsto> VFloat lam]"
    have 1: "\<forall>(k, s)\<in>set [(''depth'', ''LS''), (''U0'', ''vel''), (''asthenosphere'', ''LS''),
             (''eta1'', ''eta0''), (''eta2'', ''eta0''), (''etaMin'', ''eta0''), (''g'', ''g''),
             (''rho'', ''rho''), (''notchWidth'', ''LS''), (''lam'', ''eta0'')].
           \<exists>x y. getnum dp k = Some x \<and> sf s = Some y \<and> y \<noteq> 0 \<and> ndp k = Some (VFloat (x / y))"
      using scaled_Some[OF h(1)] scaled_Some[OF h(2)] scaled_Some[OF h(3)] scaled_Some[OF h(4)]
        scaled_Some[OF h(5)] scaled_Some[OF h(6)] scaled_Some[OF h(9)] scaled_Some[OF h(10)]
        scaled_Some[OF h(11)] scaled_Some[OF h(13)]
      unfolding ndp by simp
    have 2: "\<exists>c fa st. getnum dp ''cohesion'' = Some c \<and> getnum dp ''fa'' = Some fa \<and>
            sf ''stress'' = Some st \<and> st \<noteq> 0 \<and>
            ndp ''cohesion'' = Some (VFloat (c / st * cos (radians fa))) \<and>
            ndp ''fa'' = Some (VFloat (sin (radians fa)))"
      using scaled_Some[OF h(7)] h(8) unfolding ndp by auto
    have 3: "ndp ''a'' = dp ''a'' \<and> dp ''a'' \<noteq> None"
      using h(12) unfolding ndp by simp
    show ?thesis using 1 2 3 by blast
  qed
qed


lemma nondim_ti_model_values:
  assumes "nondim_ti_model dp = Some (sf, ndp)"
  shows "(\<forall>(k, s)\<in>set [(''asthenosphere'', ''LS''), (''eta1'', ''eta0''), (''eta2'', ''eta0''),
             (''etaMin'', ''eta0''), (''notchWidth'', ''LS'')].
           \<exists>x y. getnum dp k = Some x \<and> getnum dp s = Some y \<and> y \<noteq> 0 \<and>
                 ndp k = Some (VFloat (x / y))) \<and>
         (\<forall>(k, n, s)\<in>set [(''U0'', ''U'', ''vel''), (''cohesion'', ''cohesion'', ''stress''),
             (''g'', ''g'', ''g''), (''rho'', ''rho'', ''rho'')].
           \<exists>x y. getnum dp k = Some x \<and> sf s = Some y \<and> y \<noteq> 0 \<and> ndp n = Some (VFloat (x / y))) \<and>
         (\<exists>fa. getnum dp ''fa'' = Some fa \<and> ndp ''fa'' = Some (VFloat (tan (pi / 180 * fa)))) \<and>
         ndp ''a'' = dp ''a'' \<and> dp ''a'' \<noteq> None"
proof -
  have n: "ndp_ti_model dp sf = Some ndp"
    using assms by (auto simp: nondim_ti_model_def split: option.splits)
  from n show ?thesis
  proof (rule ndp_ti_model_Some)
    fix U asthenosphere eta1 eta2 etaMin cohesion fa g rho notchWidth a
    assume h: "scaled dp ''U0'' sf ''vel'' = Some U"
      "scaled_dp dp ''asthenosphere'' ''LS'' = Some asthenosphere"
      "scaled_dp dp ''eta1'' ''eta0'' = Some eta1" "scaled_dp dp ''eta2'' ''eta0'' = Some eta2"
      "scaled_dp dp ''etaMin'' ''eta0'' = Some etaMin"
      "scaled dp ''cohesion'' sf ''stress'' = Some cohesion" "getnum dp ''fa'' = Some fa"
      "scaled dp ''g'' sf ''g'' = Some g" "scaled dp ''rho'' sf ''rho'' = Some rho"
      "scaled_dp dp ''notchWidth'' ''LS'' = Some notchWidth" "dp ''a'' = Some a"
    and ndp: "ndp = [''U'' \<mapsto> VFloat U,
                ''asthenosphere'' \<mapsto> VFloat asthenosphere,
                ''eta1'' \<mapsto> VFloat eta1,
                ''eta2'' \<mapsto> VFloat eta2,
                ''etaMin'' \<mapsto> VFloat etaMin,
                ''cohesion'' \<mapsto> VFloat cohesion,
                ''fa'' \<mapsto> VFloat (tan ((pi / 180) * fa)),
                ''g'' \<mapsto> VFloat g,
                ''rho'' \<mapsto> VFloat rho,
                ''notchWidth'' \<mapsto> VFloat notchWidth,
                ''a'' \<mapsto> a]"
    have 1: "\<forall>(k, s)\<in>set [(''asthenosphere'', ''LS''), (''eta1'', ''eta0''), (''eta2'', ''eta0''),
             (''etaMin'', ''eta0''), (''notchWidth'', ''LS'')].
           \<exists>x y. getnum dp k = Some x \<and> getnum dp s = Some y \<and> y \<noteq> 0 \<and>
                 ndp k = Some (VFloat (x / y))"
      using scaled_dp_Some[OF h(2)] scaled_dp_Some[OF h(3)] scaled_dp_Some[OF h(4)]
        scaled_dp_Some[OF h(5)] scaled_dp_Some[OF h(10)]
      unfolding ndp by simp
    have 2: "\<forall>(k, n, s)\<in>set [(''U0'', ''U'', ''vel''), (''cohesion'', ''cohesion'', ''stress''),
             (''g'', ''g'', ''g''), (''rho'', ''rho'', ''rho'')].
           \<exists>x y. getnum dp k = Some x \<and> sf s = Some y \<and> y \<noteq> 0 \<and> ndp n = Some (VFloat (x / y))"
      using scaled_Some[OF h(1)] scaled_Some[OF h(6)] scaled_Some[OF h(8)] scaled_Some[OF h(9)]
      unfolding ndp by simp
    have 3: "\<exists>fa. getnum dp ''fa'' = Some fa \<and> ndp ''fa'' = Some (VFloat (tan (pi / 180 * fa)))"
      using h(7) unfolding ndp by simp
    have 4: "ndp ''a'' = dp ''a'' \<and> dp ''a'' \<noteq> None"
      using h(11) unfolding ndp by simp
    show ?thesis using 1 2 3 4 by blast
  qed
qed

lemma radians_30: "radians 30 = pi / 6"
  by (simp add: radians_def)

lemma nondim_isotropic_default:
  "nondim_isotropic dp_isotropic =
     Some ([''LS'' \<mapsto> 30 * 1000, ''eta0'' \<mapsto> 10 ^ 22,
            ''stress'' \<mapsto> 10 ^ 22 * (0.0025 / (3600 * 24 * 365)) / (30 * 1000),
            ''vel'' \<mapsto> 0.0025 / (3600 * 24 * 365),
            ''density'' \<mapsto> (30 * 1000) ^ 3, ''g'' \<mapsto> 9.81,
            ''rho'' \<mapsto> 10 ^ 22 * (0.0025 / (3600 * 24 * 365)) / ((30 * 1000)\<^sup>2 * 9.81)],
           [''depth'' \<mapsto> VFloat 1,
            ''U0'' \<mapsto> VFloat 1,
            ''asthenosphere'' \<mapsto> VFloat (1 / 4),
            ''eta1'' \<mapsto> VFloat 100,
            ''eta2'' \<mapsto> VFloat (1 / 100),
            ''etaMin'' \<mapsto> VFloat (1 / 10000),
            ''cohesion'' \<mapsto> VFloat (100 * 10 ^ 6 / (10 ^ 22 * (0.0025 / (3600 * 24 * 365)) / (30 * 1000)) *
                                  (sqrt 3 / 2)),
            ''fa'' \<mapsto> VFloat (1 / 2),
            ''g'' \<mapsto> VFloat 1,
            ''rho'' \<mapsto> VFloat (2700 / (10 ^ 22 * (0.0025 / (3600 * 24 * 365)) / ((30 * 1000)\<^sup>2 * 9.81))),
            ''notchWidth'' \<mapsto> VFloat (1 / 16),
            ''a'' \<mapsto> VFloat 1,
            ''lam'' \<mapsto> VFloat (1 / 10 ^ 6)])"
  by (simp add: nondim_isotropic_def sf_isotropic_def ndp_isotropic_def dp_isotropic_def
      getnum_def pydiv_def scaled_def radians_30 cos_30 sin_30 Let_def)


text \<open>
  Claim C4, as amended. After the non-dimensionalisation, the entries \<^verbatim>\<open>depth\<close>,
  \<^verbatim>\<open>U0\<close> (\<^verbatim>\<open>U\<close> in \<^verbatim>\<open>ti_model.py\<close>), \<^verbatim>\<open>asthenosphere\<close>, \<^verbatim>\<open>eta1\<close>, \<^verbatim>\<open>eta2\<close>, \<^verbatim>\<open>etaMin\<close>, \<^verbatim>\<open>g\<close>,
  \<^verbatim>\<open>rho\<close>, \<^verbatim>\<open>notchWidth\<close>, \<^verbatim>\<open>lam\<close> and, in \<^verbatim>\<open>ti_model.py\<close>, \<^verbatim>\<open>cohesion\<close> of \<^verbatim>\<open>ndp\<close> are
  the dimensional value divided by the corresponding non-zero scale. The friction angle
  is not divided by a scale: \<^verbatim>\<open>ndp.fa\<close> is the sine (\<^verbatim>\<open>isotropic.py\<close>) or the tangent
  (\<^verbatim>\<open>ti_model.py\<close>) of the angle in radians; in \<^verbatim>\<open>isotropic.py\<close> the scaled cohesion is
  also multiplied by the cosine of that angle; \<^verbatim>\<open>ndp.a\<close> is \<^verbatim>\<open>dp.a\<close> unchanged.
\<close>

theorem nondim_values:
  "(nondim_isotropic dp = Some (sf, ndp) \<longrightarrow>
      (\<forall>(k, s)\<in>set [(''depth'', ''LS''), (''U0'', ''vel''), (''asthenosphere'', ''LS''),
             (''eta1'', ''eta0''), (''eta2'', ''eta0''), (''etaMin'', ''eta0''), (''g'', ''g''),
             (''rho'', ''rho''), (''notchWidth'', ''LS''), (''lam'', ''eta0'')].
           \<exists>x y. getnum dp k = Some x \<and> sf s = Some y \<and> y \<noteq> 0 \<and> ndp k = Some (VFloat (x / y))) \<and>
      (\<exists>c fa st. getnum dp ''cohesion'' = Some c \<and> getnum dp ''fa'' = Some fa \<and>
            sf ''stress'' = Some st \<and> st \<noteq> 0 \<and>
            ndp ''cohesion'' = Some (VFloat (c / st * cos (radians fa))) \<and>
            ndp ''fa'' = Some (VFloat (sin (radians fa)))) \<and>
      ndp ''a'' = dp ''a'' \<and> dp ''a'' \<noteq> None) \<and>
   (nondim_ti_model dp = Some (sf, ndp) \<longrightarrow>
      (\<forall>(k, s)\<in>set [(''asthenosphere'', ''LS''), (''eta1'', ''eta0''), (''eta2'', ''eta0''),
             (''etaMin'', ''eta0''), (''notchWidth'', ''LS'')].
           \<exists>x y. getnum dp k = Some x \<and> getnum dp s = Some y \<and> y \<noteq> 0 \<and>
                 ndp k = Some (VFloat (x / y))) \<and>
      (\<forall>(k, n, s)\<in>set [(''U0'', ''U'', ''vel''), (''cohesion'', ''cohesion'', ''stress''),
             (''g'', ''g'', ''g''), (''rho'', ''rho'', ''rho'')].
           \<exists>x y. getnum dp k = Some x \<and> sf s = Some y \<and> y \<noteq> 0 \<and> ndp n = Some (VFloat (x / y))) \<and>
      (\<exists>fa. getnum dp ''fa'' = Some fa \<and> ndp ''fa'' = Some (VFloat (tan (pi / 180 * fa)))) \<and>
      ndp ''a'' = dp ''a'' \<and> dp ''a'' \<noteq> None)"
  using nondim_isotropic_values[of dp sf ndp] nondim_ti_model_values[of dp sf ndp]
  by blast

lemma nondim_ti_model_default:
  "nondim_ti_model dp_ti_model =
     Some ([''stress'' \<mapsto> 10 ^ 21 * (0.0125 / (3600 * 24 * 365)) / (30 * 1000),
            ''vel'' \<mapsto> 0.0125 / (3600 * 24 * 365),
            ''density'' \<mapsto> (30 * 1000) ^ 3, ''g'' \<mapsto> 9.81,
            ''rho'' \<mapsto> 10 ^ 21 * (0.0125 / (3600 * 24 * 365)) / ((30 * 1000)\<^sup>2 * 9.81)],
           [''U'' \<mapsto> VFloat 1,
            ''asthenosphere'' \<mapsto> VFloat (1 / 4),
            ''eta1'' \<mapsto> VFloat 100,
            ''eta2'' \<mapsto> VFloat (1 / 10),
            ''etaMin'' \<mapsto> VFloat (1 / 1000),
            ''cohesion'' \<mapsto> VFloat (100 * 10 ^ 6 / (10 ^ 21 * (0.0125 / (3600 * 24 * 365)) / (30 * 1000))),
            ''fa'' \<mapsto> VFloat (tan (pi / 12)),
            ''g'' \<mapsto> VFloat 1,
            ''rho'' \<mapsto> VFloat (2700 / (10 ^ 21 * (0.0125 / (3600 * 24 * 365)) / ((30 * 1000)\<^sup>2 * 9.81))),
            ''notchWidth'' \<mapsto> VFloat (1 / 16),
            ''a'' \<mapsto> VFloat 1])"
  by (simp add: nondim_ti_model_def sf_ti_model_def ndp_ti_model_def dp_ti_model_def
      getnum_def pydiv_def scaled_def scaled_dp_def Let_def)

theorem nondim_values_witness:
  "(\<exists>sf ndp. nondim_isotropic dp_isotropic = Some (sf, ndp) \<and>
      ndp ''fa'' = Some (VFloat (1 / 2)) \<and> ndp ''a'' = dp_isotropic ''a'') \<and>
   (\<exists>sf ndp. nondim_ti_model dp_ti_model = Some (sf, ndp) \<and>
      ndp ''fa'' = Some (VFloat (tan (pi / 12))) \<and> ndp ''a'' = dp_ti_model ''a'')"
proof -
  obtain sf ndp where r: "nondim_isotropic dp_isotropic = Some (sf, ndp)"
    by (simp add: nondim_isotropic_default)
  have fa: "getnum dp_isotropic ''fa'' = Some 30"
    by (simp add: getnum_def dp_isotropic_def)
  have "ndp ''fa'' = Some (VFloat (1 / 2)) \<and> ndp ''a'' = dp_isotropic ''a''"
    using conjunct1[OF nondim_values, rule_format, OF r] fa
    by (auto simp: radians_30 sin_30)
  then have 1: "\<exists>sf ndp. nondim_isotropic dp_isotropic = Some (sf, ndp) \<and>
      ndp ''fa'' = Some (VFloat (1 / 2)) \<and> ndp ''a'' = dp_isotropic ''a''"
    using r by blast
  obtain sf' ndp' where r': "nondim_ti_model dp_ti_model = Some (sf', ndp')"
    by (simp add: nondim_ti_model_default)
  have fa': "getnum dp_ti_model ''fa'' = Some 15"
    by (simp add: getnum_def dp_ti_model_def)
  have "ndp' ''fa'' = Some (VFloat (tan (pi / 12))) \<and> ndp' ''a'' = dp_ti_model ''a''"
    using conjunct2[OF nondim_values, rule_format, OF r'] fa'
    by auto
  then have 2: "\<exists>sf ndp. nondim_ti_model dp_ti_model = Some (sf, ndp) \<and>
      ndp ''fa'' = Some (VFloat (tan (pi / 12))) \<and> ndp ''a'' = dp_ti_model ''a''"
    using r' by blast
  show ?thesis using 1 2 by blast
qed

text \<open>
  Claim C4 as stated fails in \<^verbatim>\<open>isotropic.py\<close> with the default parameters:
  \<^verbatim>\<open>ndp.cohesion\<close> is \<^verbatim>\<open>dp.cohesion / sf.stress\<close> times \<open>sqrt 3 / 2\<close>, the cosine of the
  friction angle of 30 degrees, and \<^verbatim>\<open>ndp.fa\<close> is 1/2, the sine of that angle.
\<close>

theorem nondim_cohesion_counterexample:
  "getnum dp_isotropic ''cohesion'' = Some (100 * 10 ^ 6) \<and>
   sf_entry (nondim_isotropic dp_isotropic) ''stress'' =
     Some (10 ^ 22 * (0.0025 / (3600 * 24 * 365)) / (30 * 1000)) \<and>
   ndp_entry (nondim_isotropic dp_isotropic) ''cohesion'' =
     Some (100 * 10 ^ 6 / (10 ^ 22 * (0.0025 / (3600 * 24 * 365)) / (30 * 1000)) * (sqrt 3 / 2)) \<and>
   ndp_entry (nondim_isotropic dp_isotropic) ''cohesion'' \<noteq>
     Some (100 * 10 ^ 6 / (10 ^ 22 * (0.0025 / (3600 * 24 * 365)) / (30 * 1000)))"
proof -
  have ne: "sqrt 3 \<noteq> 2"
  proof
    assume "sqrt 3 = 2"
    then have "(sqrt 3)\<^sup>2 = 2\<^sup>2" by simp
    then show False by simp
  qed
  have 1: "getnum dp_isotropic ''cohesion'' = Some (100 * 10 ^ 6)"
    by (simp add: getnum_def dp_isotropic_def)
  have 2: "sf_entry (nondim_isotropic dp_isotropic) ''stress'' =
     Some (10 ^ 22 * (0.0025 / (3600 * 24 * 365)) / (30 * 1000))"
    unfolding nondim_isotropic_default by (simp add: sf_entry_def)
  have 3: "ndp_entry (nondim_isotropic dp_isotropic) ''cohesion'' =
     Some (100 * 10 ^ 6 / (10 ^ 22 * (0.0025 / (3600 * 24 * 365)) / (30 * 1000)) * (sqrt 3 / 2))"
    unfolding nondim_isotropic_default by (simp add: ndp_entry_def)
  have 4: "ndp_entry (nondim_isotropic dp_isotropic) ''cohesion'' \<noteq>
     Some (100 * 10 ^ 6 / (10 ^ 22 * (0.0025 / (3600 * 24 * 365)) / (30 * 1000)))"
    unfolding 3 using ne by simp
  show ?thesis using 1 2 3 4 by blast
qed

end
